theory Spec2Isabelle
  imports Complex_Main "HOL-Library.Log_Nat"
begin

section \<open>pptx2img: the conversion coordinator \<^verbatim>\<open>topng\<close>\<close>

text \<open>
  The repository is one Python function, \<^verbatim>\<open>topng(pptx, output_dir, range, scale)\<close>
  (\<^verbatim>\<open>src/lib/pptx2img/pptx2img.py\<close>). It resolves two paths, creates the output
  directory, starts PowerPoint through COM, opens the presentation, derives a slide range
  and a target pixel size, exports the slides in a loop and closes the presentation.

  Everything the function reads from outside (file system, COM objects, screen metrics,
  floating-point rounding) is a field of a \<open>world\<close>; everything it does to the outside
  (printing, creating a directory, COM calls) is an \<open>event\<close> of the run, in program
  order. An exception is a value: a run ends \<open>Returned\<close> or \<open>Raised e\<close>. An exception is
  modelled by its class; the text of its message is not kept.
\<close>

subsection \<open>Python values\<close>

text \<open>
  The exceptions the function can meet. All of them derive from Python's
  \<^verbatim>\<open>Exception\<close> (as \<^verbatim>\<open>OSError\<close> and \<^verbatim>\<open>pywintypes.com_error\<close> do), so an
  \<^verbatim>\<open>except Exception\<close> clause catches each of them.
\<close>

datatype exn =
  TypeError | ZeroDivisionError | OverflowError | AttributeError | OSError | ComError

text \<open>
  The \<^verbatim>\<open>range\<close> argument. The docstring types it as a list \<^verbatim>\<open>[start, end]\<close> of
  1-based slide numbers; \<open>NoRange\<close> is the default \<^verbatim>\<open>None\<close>. A tuple is the other
  sequence a caller would pass. \<open>RangeCallable\<close> is Python's builtin \<^verbatim>\<open>range\<close> type
  itself passed as the argument: the parameter shadows the builtin inside the function,
  and this is the one modelled value that can be called at line 105.
  Elements are integers, as documented.
\<close>

datatype range_arg = NoRange | RangeList "int list" | RangeTuple "int list" | RangeCallable

text \<open>Truth value of the argument (\<^verbatim>\<open>if range\<close>): \<^verbatim>\<open>None\<close> and empty sequences are false.\<close>

fun truthy_range :: "range_arg \<Rightarrow> bool" where
  "truthy_range NoRange = False"
| "truthy_range (RangeList xs) = (xs \<noteq> [])"
| "truthy_range (RangeTuple xs) = (xs \<noteq> [])"
| "truthy_range RangeCallable = True"

text \<open>\<^verbatim>\<open>isinstance(range, list)\<close>.\<close>

fun isinstance_list :: "range_arg \<Rightarrow> bool" where
  "isinstance_list (RangeList xs) = True"
| "isinstance_list r = False"

text \<open>The items of a sequence argument, for \<^verbatim>\<open>len(range)\<close> and \<^verbatim>\<open>range[k]\<close>.\<close>

fun items :: "range_arg \<Rightarrow> int list" where
  "items (RangeList xs) = xs"
| "items (RangeTuple xs) = xs"
| "items r = []"

text \<open>
  \<^verbatim>\<open>range(a, b)\<close> evaluated inside \<^verbatim>\<open>topng\<close>, where \<^verbatim>\<open>range\<close> is the parameter:
  calling \<^verbatim>\<open>None\<close>, a list or a tuple raises \<^verbatim>\<open>TypeError\<close> (object is not callable);
  the builtin yields \<open>a, a + 1, \<dots>, b - 1\<close>.
\<close>

fun call_range :: "range_arg \<Rightarrow> int \<Rightarrow> int \<Rightarrow> exn + int list" where
  "call_range RangeCallable a b = Inr [a..b - 1]"
| "call_range r a b = Inl TypeError"

text \<open>
  The \<^verbatim>\<open>scale\<close> argument is \<^verbatim>\<open>None\<close> or an integer (docstring: \<^verbatim>\<open>scale (int)\<close>).
  \<^verbatim>\<open>not scale\<close> holds for \<^verbatim>\<open>None\<close> and for \<^verbatim>\<open>0\<close>.
\<close>

fun truthy_scale :: "int option \<Rightarrow> bool" where
  "truthy_scale None = False"
| "truthy_scale (Some m) = (m \<noteq> 0)"

subsection \<open>Floats\<close>

text \<open>
  A finite Python float is modelled by its value, a rational. \<^verbatim>\<open>int(x)\<close> on a finite
  float truncates towards zero.
\<close>

definition py_int :: "rat \<Rightarrow> int" where
  "py_int x = (if 0 \<le> x then \<lfloor>x\<rfloor> else \<lceil>x\<rceil>)"

text \<open>
  A float is a binary64 double. An operation whose exact result has magnitude
  \<open>2\<^sup>1\<^sup>0\<^sup>2\<^sup>4 - 2\<^sup>9\<^sup>7\<^sup>0\<close> or more (the midpoint between the largest double and
  \<open>2\<^sup>1\<^sup>0\<^sup>2\<^sup>4\<close>) gives an infinity; \<^verbatim>\<open>int\<close> of an infinity raises
  \<^verbatim>\<open>OverflowError\<close>, and so does the conversion of an integer of that magnitude to a
  float.
\<close>

definition float_limit :: rat where
  "float_limit = 2 ^ 1024 - 2 ^ 970"

text \<open>
  Rounding to the nearest double, ties to even: \<open>binade x\<close> is the exponent \<open>e\<close> with
  \<open>2\<^sup>e \<le> |x| < 2\<^sup>e\<^sup>+\<^sup>1\<close>, the spacing of the doubles around \<open>x\<close> is \<open>2\<^sup>e\<^sup>-\<^sup>5\<^sup>2\<close>
  (and \<open>2\<^sup>-\<^sup>1\<^sup>0\<^sup>7\<^sup>4\<close> for subnormal numbers), and \<open>x\<close> is rounded to the nearest
  multiple of the spacing. It is the rounding of a result below \<open>float_limit\<close>.
\<close>

definition round_half_even :: "rat \<Rightarrow> int" where
  "round_half_even y =
     (let f = \<lfloor>y\<rfloor>; d = y - of_int f
      in if d < 1 / 2 then f else if 1 / 2 < d then f + 1 else if even f then f else f + 1)"

definition binade :: "rat \<Rightarrow> int" where
  "binade x =
     (let (p, q) = quotient_of \<bar>x\<bar>; e = bitlen p - bitlen q
      in if 2 powi e \<le> \<bar>x\<bar> then e else e - 1)"

definition round_double :: "rat \<Rightarrow> rat" where
  "round_double x =
     (if x = 0 then 0
      else (let ulp = 2 powi (max (binade x) (- 1022) - 52)
            in of_int (round_half_even (x / ulp)) * ulp))"

text \<open>
  \<^verbatim>\<open>PageSetup.SlideWidth\<close> and \<^verbatim>\<open>SlideHeight\<close> are COM \<^verbatim>\<open>Single\<close> values
  (binary32), which reach Python as floats of the same value. The finite \<^verbatim>\<open>Single\<close>
  values are the numbers below \<open>2\<^sup>1\<^sup>2\<^sup>8\<close> in magnitude that are a multiple of the
  spacing of their binade, \<open>2\<^sup>e\<^sup>-\<^sup>2\<^sup>3\<close> (and \<open>2\<^sup>-\<^sup>1\<^sup>4\<^sup>9\<close> for subnormal numbers); the
  type \<open>single\<close> holds exactly these.
\<close>

definition single_ulp :: "rat \<Rightarrow> rat" where
  "single_ulp x = 2 powi (max (binade x) (- 126) - 23)"

typedef single =
  "{x :: rat. \<bar>x\<bar> < 2 ^ 128 \<and> of_int \<lfloor>x / single_ulp x\<rfloor> = x / single_ulp x}"
  by (rule exI [of _ 0]) simp

setup_lifting type_definition_single

text \<open>\<^verbatim>\<open>"%d" % n\<close> for the file name \<^verbatim>\<open>Slide_%d.png\<close>.\<close>

fun show_nat :: "nat \<Rightarrow> string" where
  "show_nat n =
     (if n < 10 then [''0123456789'' ! n]
      else show_nat (n div 10) @ [''0123456789'' ! (n mod 10)])"

declare show_nat.simps [simp del]

definition show_int :: "int \<Rightarrow> string" where
  "show_int i = (if i < 0 then CHR ''-'' # show_nat (nat (- i)) else show_nat (nat i))"

subsection \<open>The outside world\<close>

text \<open>
  An open presentation (the COM object returned by \<^verbatim>\<open>Presentations.Open\<close>):
  \<^verbatim>\<open>Slides.Count\<close>, the page size \<^verbatim>\<open>PageSetup.SlideWidth\<close> and \<^verbatim>\<open>SlideHeight\<close>
  (points), whether \<^verbatim>\<open>Slides(i).Export\<close> fails for slide \<open>i\<close>, and whether
  \<^verbatim>\<open>Close()\<close> fails. Reading the three properties of an open presentation is taken
  to succeed.
\<close>

record presentation =
  slides_count :: nat
  page_width :: single
  page_height :: single
  export_result :: "int \<Rightarrow> exn option"
  close_result :: "exn option"

text \<open>The float values of \<^verbatim>\<open>slide_width\<close> and \<^verbatim>\<open>slide_height\<close> (lines 61-62).\<close>

definition slide_width :: "presentation \<Rightarrow> rat" where
  "slide_width p = Rep_single (page_width p)"

definition slide_height :: "presentation \<Rightarrow> rat" where
  "slide_height p = Rep_single (page_height p)"

text \<open>
  The host: \<^verbatim>\<open>os.path\<close> functions, the file system before the call, the result of
  \<^verbatim>\<open>os.makedirs\<close>, of \<^verbatim>\<open>Dispatch("PowerPoint.Application")\<close> and of
  \<^verbatim>\<open>Presentations.Open\<close>, the two \<^verbatim>\<open>GetSystemMetrics\<close> answers (pixel counts of the
  primary display) or the exception the \<^verbatim>\<open>ctypes\<close> lines raise, and the rounding of a
  float operation's exact result to a float (\<open>rnd\<close>; on a real host it is
  \<open>round_double\<close>).
\<close>

record world =
  abspath :: "string \<Rightarrow> string"
  basename :: "string \<Rightarrow> string"
  join :: "string \<Rightarrow> string \<Rightarrow> string"
  path_exists :: "string \<Rightarrow> bool"
  makedirs_result :: "string \<Rightarrow> exn option"
  dispatch_result :: "exn option"
  open_result :: "string \<Rightarrow> exn + presentation"
  screen_metrics :: "exn + nat \<times> nat"
  rnd :: "rat \<Rightarrow> rat"

text \<open>Float multiplication and division of a finite result: the exact result, rounded.\<close>

definition fmul :: "world \<Rightarrow> rat \<Rightarrow> rat \<Rightarrow> rat" where
  "fmul w x y = rnd w (x * y)"

definition fdiv :: "world \<Rightarrow> rat \<Rightarrow> rat \<Rightarrow> rat" where
  "fdiv w x y = rnd w (x / y)"

text \<open>
  An integer operand of a float operation is converted to a float first: too large an
  integer raises \<^verbatim>\<open>OverflowError\<close>, an integer up to \<open>2\<^sup>5\<^sup>3\<close> in magnitude is
  converted exactly, and a larger one is rounded.
\<close>

definition to_float :: "world \<Rightarrow> int \<Rightarrow> exn + rat" where
  "to_float w n =
     (if float_limit \<le> \<bar>of_int n\<bar> then Inl OverflowError
      else if \<bar>n\<bar> \<le> 2 ^ 53 then Inr (of_int n)
      else Inr (rnd w (of_int n)))"

text \<open>
  \<^verbatim>\<open>int(f)\<close> where the float \<open>f\<close> is the result of an operation with exact value
  \<open>x\<close>: \<open>f\<close> is an infinity when \<open>x\<close> reaches \<open>float_limit\<close>, and \<open>x\<close> rounded
  otherwise.
\<close>

definition int_of_float :: "world \<Rightarrow> rat \<Rightarrow> exn + int" where
  "int_of_float w x =
     (if float_limit \<le> \<bar>x\<bar> then Inl OverflowError else Inr (py_int (rnd w x)))"

subsection \<open>What a run does\<close>

text \<open>The lines the function prints, by format string, with the values substituted.\<close>

datatype message =
    ErrNotFound string
  | CreatedDir string
  | ErrInit
  | Details exn
  | ModeAuto nat
  | ModeFallback
  | ModeManual int
  | Processing string
  | TargetSize int int
  | Converting int int
  | Saved string
  | Done nat string
  | ErrConversion exn

text \<open>
  The effects of a run, in order: a printed line, \<^verbatim>\<open>os.makedirs(path)\<close>,
  \<^verbatim>\<open>Dispatch(...)\<close>, \<^verbatim>\<open>Presentations.Open(path)\<close>,
  \<^verbatim>\<open>Slides(i).Export(path, "PNG", w, h)\<close> and \<^verbatim>\<open>presentation.Close()\<close>.
  A call is recorded when it is made, whether or not it then fails.
\<close>

datatype event =
    Print message
  | MakeDirs string
  | Dispatch
  | Open string
  | Export int string int int
  | Close

datatype outcome = Returned | Raised exn

record run =
  outcome :: outcome
  events :: "event list"

subsection \<open>Step 4: the slide range (lines 52-58)\<close>

definition slide_range :: "nat \<Rightarrow> range_arg \<Rightarrow> int \<times> int" where
  "slide_range total_slides r =
     (if truthy_range r \<and> isinstance_list r \<and> length (items r) = 2
      then (max 1 (items r ! 0), min (int total_slides) (items r ! 1))
      else (1, int total_slides))"

subsection \<open>Step 5: the target resolution (lines 61-97)\<close>

text \<open>
  The 2x fallback of lines 90-92. Twice a \<^verbatim>\<open>Single\<close> is far below \<open>float_limit\<close>, so
  these two products are finite.
\<close>

definition fallback_resolution :: "world \<Rightarrow> rat \<Rightarrow> rat \<Rightarrow> message \<times> int \<times> int" where
  "fallback_resolution w slide_w slide_h =
     (ModeFallback, py_int (fmul w slide_w 2), py_int (fmul w slide_h 2))"

text \<open>
  \<^verbatim>\<open>int(screen_long / slide_ratio)\<close> and \<^verbatim>\<open>int(screen_long * slide_ratio)\<close> (lines 82
  and 85): the integer \<^verbatim>\<open>screen_long\<close> is converted to a float, the operation is
  carried out and \<^verbatim>\<open>int\<close> truncates its result.
\<close>

definition int_of_quotient :: "world \<Rightarrow> nat \<Rightarrow> rat \<Rightarrow> exn + int" where
  "int_of_quotient w n y =
     (case to_float w (int n) of
        Inl e \<Rightarrow> Inl e
      | Inr x \<Rightarrow> if y = 0 then Inl ZeroDivisionError else int_of_float w (x / y))"

definition int_of_product :: "world \<Rightarrow> nat \<Rightarrow> rat \<Rightarrow> exn + int" where
  "int_of_product w n y =
     (case to_float w (int n) of
        Inl e \<Rightarrow> Inl e
      | Inr x \<Rightarrow> int_of_float w (x * y))"

text \<open>
  The automatic branch (lines 69-92). The result is the printed mode line and
  \<open>(target_w, target_h)\<close>. Every exception of the \<^verbatim>\<open>try\<close> block (the screen query
  failing, \<^verbatim>\<open>ZeroDivisionError\<close> from a slide height of zero, \<^verbatim>\<open>OverflowError\<close>
  from a conversion) leads to the 2x fallback. The quotient of two \<^verbatim>\<open>Single\<close> values
  is below \<open>float_limit\<close>, so \<^verbatim>\<open>slide_ratio\<close> is finite.
\<close>

definition auto_resolution :: "world \<Rightarrow> rat \<Rightarrow> rat \<Rightarrow> message \<times> int \<times> int" where
  "auto_resolution w slide_w slide_h =
     (case screen_metrics w of
        Inl e \<Rightarrow> fallback_resolution w slide_w slide_h
      | Inr (screen_w, screen_h) \<Rightarrow>
          (let screen_long = max screen_w screen_h in
           if slide_h = 0 then fallback_resolution w slide_w slide_h
           else
             (let slide_ratio = fdiv w slide_w slide_h in
              if 1 \<le> slide_ratio
              then
                (case int_of_quotient w screen_long slide_ratio of
                   Inl e \<Rightarrow> fallback_resolution w slide_w slide_h
                 | Inr target_h \<Rightarrow> (ModeAuto screen_long, int screen_long, target_h))
              else
                (case int_of_product w screen_long slide_ratio of
                   Inl e \<Rightarrow> fallback_resolution w slide_w slide_h
                 | Inr target_w \<Rightarrow> (ModeAuto screen_long, target_w, int screen_long)))))"

text \<open>
  The manual branch (lines 95-97): \<^verbatim>\<open>int(slide_width * scale)\<close> and
  \<^verbatim>\<open>int(slide_height * scale)\<close> with the integer \<^verbatim>\<open>scale\<close>. The conversion of
  \<^verbatim>\<open>scale\<close> to a float, or \<^verbatim>\<open>int\<close> of an infinite product, raises
  \<^verbatim>\<open>OverflowError\<close> before the mode line is printed.
\<close>

definition manual_resolution ::
  "world \<Rightarrow> rat \<Rightarrow> rat \<Rightarrow> int \<Rightarrow> exn + message \<times> int \<times> int" where
  "manual_resolution w slide_w slide_h m =
     (case to_float w m of
        Inl e \<Rightarrow> Inl e
      | Inr s \<Rightarrow>
          if float_limit \<le> \<bar>slide_w * s\<bar> \<or> float_limit \<le> \<bar>slide_h * s\<bar>
          then Inl OverflowError
          else Inr (ModeManual m, py_int (fmul w slide_w s), py_int (fmul w slide_h s)))"

definition target_resolution ::
  "world \<Rightarrow> rat \<Rightarrow> rat \<Rightarrow> int option \<Rightarrow> exn + message \<times> int \<times> int" where
  "target_resolution w slide_w slide_h scale =
     (if \<not> truthy_scale scale then Inr (auto_resolution w slide_w slide_h)
      else
        (case scale of
           Some m \<Rightarrow> manual_resolution w slide_w slide_h m
         | None \<Rightarrow> Inr (auto_resolution w slide_w slide_h)))"

subsection \<open>Step 6: the export loop (lines 104-116)\<close>

text \<open>
  One iteration per index: \<^verbatim>\<open>Slides(i)\<close> raises a COM error outside \<open>1..Count\<close>;
  \<^verbatim>\<open>Export\<close> is called and may raise; otherwise the count grows and the name is
  printed. The result is the events and the final count, or the exception that ended
  the loop.
\<close>

fun export_loop ::
  "world \<Rightarrow> presentation \<Rightarrow> string \<Rightarrow> int \<Rightarrow> int \<Rightarrow> int list \<Rightarrow> nat \<Rightarrow> event list \<times> (exn + nat)"
where
  "export_loop w p output_path target_w target_h [] count = ([], Inr count)"
| "export_loop w p output_path target_w target_h (i # rest) count =
     (if i < 1 \<or> int (slides_count p) < i then ([], Inl ComError)
      else
        (let image_name = ''Slide_'' @ show_int i @ ''.png'';
             image_path = join w output_path image_name;
             call = Export i image_path target_w target_h
         in case export_result p i of
              Some e \<Rightarrow> ([call], Inl e)
            | None \<Rightarrow>
                (let (evs, res) = export_loop w p output_path target_w target_h rest (count + 1)
                 in (call # Print (Saved image_name) # evs, res))))"

subsection \<open>The body of the \<^verbatim>\<open>try\<close> block after \<^verbatim>\<open>Open\<close> (lines 52-116)\<close>

definition convert ::
  "world \<Rightarrow> presentation \<Rightarrow> string \<Rightarrow> string \<Rightarrow> range_arg \<Rightarrow> int option
     \<Rightarrow> event list \<times> exn option"
where
  "convert w p pptx output_path r scale =
     (let total_slides = slides_count p;
          (start_slide, end_slide) = slide_range total_slides r
      in case target_resolution w (slide_width p) (slide_height p) scale of
           Inl e \<Rightarrow> ([], Some e)
         | Inr (mode, target_w, target_h) \<Rightarrow>
             (let header = [Print mode, Print (Processing (basename w pptx)),
                            Print (TargetSize target_w target_h),
                            Print (Converting start_slide end_slide)]
              in case call_range r start_slide (end_slide + 1) of
                   Inl e \<Rightarrow> (header, Some e)
                 | Inr indices \<Rightarrow>
                     (case export_loop w p output_path target_w target_h indices 0 of
                        (evs, Inl e) \<Rightarrow> (header @ evs, Some e)
                      | (evs, Inr count) \<Rightarrow>
                          (header @ evs @ [Print (Done count output_path)], None))))"

subsection \<open>\<^verbatim>\<open>topng\<close>\<close>

text \<open>
  Lines 26-125. The existence test and \<^verbatim>\<open>os.makedirs\<close> stand outside every
  \<^verbatim>\<open>try\<close>; \<^verbatim>\<open>Dispatch\<close> has a handler of its own that prints and returns; the rest
  runs under \<^verbatim>\<open>try / except Exception / finally\<close>, and the \<^verbatim>\<open>finally\<close> clause
  calls \<^verbatim>\<open>Close()\<close> when \<^verbatim>\<open>presentation\<close> was assigned (a COM object is true).
  An exception of \<^verbatim>\<open>Close()\<close> itself leaves the function.
\<close>

definition ensure_output_dir :: "world \<Rightarrow> string \<Rightarrow> event list \<times> exn option" where
  "ensure_output_dir w output_path =
     (if \<not> path_exists w output_path then
        (case makedirs_result w output_path of
           Some e \<Rightarrow> ([MakeDirs output_path], Some e)
         | None \<Rightarrow> ([MakeDirs output_path, Print (CreatedDir output_path)], None))
      else ([], None))"

definition topng :: "world \<Rightarrow> string \<Rightarrow> string \<Rightarrow> range_arg \<Rightarrow> int option \<Rightarrow> run" where
  "topng w pptx output_dir r scale =
     (let pptx_path = abspath w pptx;
          output_path = abspath w output_dir
      in if \<not> path_exists w pptx_path
         then \<lparr>outcome = Returned, events = [Print (ErrNotFound pptx_path)]\<rparr>
         else
           (case ensure_output_dir w output_path of
              (evs0, Some e) \<Rightarrow> \<lparr>outcome = Raised e, events = evs0\<rparr>
            | (evs0, None) \<Rightarrow>
                (case dispatch_result w of
                   Some e \<Rightarrow>
                     \<lparr>outcome = Returned,
                      events = evs0 @ [Dispatch, Print ErrInit, Print (Details e)]\<rparr>
                 | None \<Rightarrow>
                     (case open_result w pptx_path of
                        Inl e \<Rightarrow>
                          \<lparr>outcome = Returned,
                           events = evs0 @ [Dispatch, Open pptx_path, Print (ErrConversion e)]\<rparr>
                      | Inr p \<Rightarrow>
                          (let (evs, raised) = convert w p pptx output_path r scale;
                               handler = (case raised of
                                            Some e \<Rightarrow> [Print (ErrConversion e)]
                                          | None \<Rightarrow> [])
                           in \<lparr>outcome = (case close_result p of
                                            Some e \<Rightarrow> Raised e
                                          | None \<Rightarrow> Returned),
                               events = evs0 @ [Dispatch, Open pptx_path] @ evs @ handler
                                          @ [Close]\<rparr>)))))"

subsection \<open>Reading a run\<close>

text \<open>
  What a run shows of its slide range, its target size, its exports and its
  \<^verbatim>\<open>Close()\<close> calls: the \<^verbatim>\<open>Converting slides %d to %d...\<close> lines, the
  \<^verbatim>\<open>Target Size: %dx%d px\<close> lines, the \<^verbatim>\<open>Export\<close> calls (slide index and file path)
  and the \<^verbatim>\<open>Close\<close> events, each in the order of the run; the exceptions it reports
  (the \<^verbatim>\<open>Details: %s\<close> and \<^verbatim>\<open>An error occurred during conversion: %s\<close> lines)
  and the \<^verbatim>\<open>Mode: Manual Scale\<close> lines.
\<close>

fun range_line :: "event \<Rightarrow> (int \<times> int) list" where
  "range_line (Print (Converting s e)) = [(s, e)]"
| "range_line ev = []"

fun size_line :: "event \<Rightarrow> (int \<times> int) list" where
  "size_line (Print (TargetSize tw th)) = [(tw, th)]"
| "size_line ev = []"

fun export_call :: "event \<Rightarrow> (int \<times> string) list" where
  "export_call (Export i path tw th) = [(i, path)]"
| "export_call ev = []"

fun close_call :: "event \<Rightarrow> unit list" where
  "close_call Close = [()]"
| "close_call ev = []"

fun manual_line :: "event \<Rightarrow> int list" where
  "manual_line (Print (ModeManual m)) = [m]"
| "manual_line ev = []"

fun error_line :: "event \<Rightarrow> exn list" where
  "error_line (Print (Details e)) = [e]"
| "error_line (Print (ErrConversion e)) = [e]"
| "error_line ev = []"

definition effective_ranges :: "run \<Rightarrow> (int \<times> int) list" where
  "effective_ranges x = concat (map range_line (events x))"

definition target_sizes :: "run \<Rightarrow> (int \<times> int) list" where
  "target_sizes x = concat (map size_line (events x))"

definition exported :: "run \<Rightarrow> (int \<times> string) list" where
  "exported x = concat (map export_call (events x))"

definition close_calls :: "run \<Rightarrow> nat" where
  "close_calls x = length (concat (map close_call (events x)))"

definition reported :: "run \<Rightarrow> exn list" where
  "reported x = concat (map error_line (events x))"

definition manual_modes :: "run \<Rightarrow> int list" where
  "manual_modes x = concat (map manual_line (events x))"

text \<open>
  The events of a run other than its error reports. The text of a reported exception is
  not modelled, so two runs are compared on these events and on the classes of the
  exceptions they report.
\<close>

definition plain_events :: "run \<Rightarrow> event list" where
  "plain_events x = filter (\<lambda>ev. error_line ev = []) (events x)"

text \<open>
  Lines 95-96 raise: the target resolution of the presentation \<open>p\<close> with this
  \<^verbatim>\<open>scale\<close> ends in an exception, before any line of the conversion is printed.
\<close>

definition resolution_raises :: "world \<Rightarrow> presentation \<Rightarrow> int option \<Rightarrow> bool" where
  "resolution_raises w p scale =
     (case target_resolution w (slide_width p) (slide_height p) scale of
        Inl e \<Rightarrow> True
      | Inr result \<Rightarrow> False)"

text \<open>
  The presentation \<open>p\<close> is opened by the call: the file exists, the output directory
  exists or is created, \<^verbatim>\<open>Dispatch\<close> succeeds and \<^verbatim>\<open>Open\<close> returns \<open>p\<close>.
\<close>

definition opens :: "world \<Rightarrow> string \<Rightarrow> string \<Rightarrow> presentation \<Rightarrow> bool" where
  "opens w pptx output_dir p =
     (path_exists w (abspath w pptx)
      \<and> snd (ensure_output_dir w (abspath w output_dir)) = None
      \<and> dispatch_result w = None
      \<and> open_result w (abspath w pptx) = Inr p)"

text \<open>The spec's slide-range invariant \<open>1 \<le> start \<le> end \<le> total_slides\<close>.\<close>

definition range_invariant :: "nat \<Rightarrow> int \<times> int \<Rightarrow> bool" where
  "range_invariant total_slides se =
     (1 \<le> fst se \<and> fst se \<le> snd se \<and> snd se \<le> int total_slides)"

subsection \<open>Example hosts\<close>

text \<open>
  A ten-slide deck of 1023.75 x 511.875 points, and a host with a 1920 x 1080 screen on
  which \<^verbatim>\<open>C:/deck.pptx\<close> is the only existing path. The host writes paths with
  forward slashes, and its \<^verbatim>\<open>abspath\<close> leaves a path unchanged (the examples pass
  absolute paths). Its float operations round nothing: every float value the examples
  compute on it is a binary fraction that a double represents exactly.
\<close>

lift_definition deck_width :: single is "4095 / 4"
  by code_simp

lift_definition deck_height :: single is "4095 / 8"
  by code_simp

definition deck :: presentation where
  "deck = \<lparr>slides_count = 10, page_width = deck_width, page_height = deck_height,
            export_result = (\<lambda>i. None), close_result = None\<rparr>"

definition host :: world where
  "host = \<lparr>abspath = (\<lambda>path. path),
            basename = (\<lambda>path. rev (takeWhile (\<lambda>c. c \<noteq> CHR ''/'') (rev path))),
            join = (\<lambda>dir name. dir @ ''/'' @ name),
            path_exists = (\<lambda>path. path = ''C:/deck.pptx''),
            makedirs_result = (\<lambda>path. None), dispatch_result = None,
            open_result = (\<lambda>path. Inr deck), screen_metrics = Inr (1920, 1080),
            rnd = (\<lambda>x. x)\<rparr>"

text \<open>The same deck when exporting its second slide fails.\<close>

definition broken_deck :: presentation where
  "broken_deck = deck\<lparr>export_result := (\<lambda>i. if i = 2 then Some ComError else None)\<rparr>"

definition broken_host :: world where
  "broken_host = host\<lparr>open_result := (\<lambda>path. Inr broken_deck)\<rparr>"

text \<open>The same host when the output directory cannot be created.\<close>

definition readonly_host :: world where
  "readonly_host = host\<lparr>makedirs_result := (\<lambda>path. Some OSError)\<rparr>"

text \<open>The same host with the rounding of doubles.\<close>

definition ieee_host :: world where
  "ieee_host = host\<lparr>rnd := round_double\<rparr>"

text \<open>
  A host with the rounding of doubles and a 1680 x 1050 screen, showing a ten-slide deck
  of 420 x 375 points.
\<close>

lift_definition wide_width :: single is "420"
  by code_simp

lift_definition wide_height :: single is "375"
  by code_simp

definition wide_deck :: presentation where
  "wide_deck = \<lparr>slides_count = 10, page_width = wide_width, page_height = wide_height,
                 export_result = (\<lambda>i. None), close_result = None\<rparr>"

definition wide_host :: world where
  "wide_host = host\<lparr>open_result := (\<lambda>path. Inr wide_deck),
                    screen_metrics := Inr (1680, 1050), rnd := round_double\<rparr>"

text \<open>A scale that is too large for a float.\<close>

definition huge_scale :: int where
  "huge_scale = 2 ^ 1024"

section \<open>Properties\<close>

subsection \<open>Rounding to a double\<close>

lemma round_half_even_error: "\<bar>of_int (round_half_even y) - y\<bar> \<le> 1 / 2"
proof -
  have "of_int \<lfloor>y\<rfloor> \<le> y" "y < of_int \<lfloor>y\<rfloor> + 1"
    by linarith+
  then show ?thesis
    by (auto simp: round_half_even_def Let_def)
qed

lemma round_half_even_nonneg: "0 \<le> y \<Longrightarrow> 0 \<le> round_half_even y"
  by (auto simp: round_half_even_def Let_def)

lemma round_half_even_of_int [simp]: "round_half_even (of_int n) = n"
  by (simp add: round_half_even_def)

lemma binade_bounds:
  assumes "x \<noteq> 0"
  shows "2 powi binade x \<le> \<bar>x\<bar>" and "\<bar>x\<bar> < 2 powi (binade x + 1)"
proof -
  obtain p q where pq: "quotient_of \<bar>x\<bar> = (p, q)"
    by (cases "quotient_of \<bar>x\<bar>")
  have q: "0 < q"
    using pq by (rule quotient_of_denom_pos)
  have x: "\<bar>x\<bar> = of_int p / of_int q"
    using pq by (rule quotient_of_div)
  have "0 < \<bar>x\<bar>"
    using assms by simp
  then have p: "0 < p"
    using q unfolding x by (simp add: zero_less_divide_iff)
  define e where "e = bitlen p - bitlen q"
  have bp: "2 ^ nat (bitlen p - 1) \<le> p" "p < 2 ^ nat (bitlen p)"
    using bitlen_bounds [OF p] by simp_all
  have bq: "2 ^ nat (bitlen q - 1) \<le> q" "q < 2 ^ nat (bitlen q)"
    using bitlen_bounds [OF q] by simp_all
  have bp1: "1 \<le> bitlen p" and bq1: "1 \<le> bitlen q"
    using p q by (auto simp: bitlen_alt_def)
  have P1: "(2::rat) powi (bitlen p - 1) \<le> of_int p"
  proof -
    have "(2::rat) powi (bitlen p - 1) = 2 ^ nat (bitlen p - 1)"
      using bp1 by (simp add: power_int_nonneg_exp)
    also have "\<dots> = of_int (2 ^ nat (bitlen p - 1))" by simp
    also have "\<dots> \<le> of_int p" using bp(1) by (simp only: of_int_le_iff)
    finally show ?thesis .
  qed
  have P2: "of_int p < (2::rat) powi bitlen p"
  proof -
    have "(of_int p :: rat) < of_int (2 ^ nat (bitlen p))"
      using bp(2) by (simp only: of_int_less_iff)
    also have "\<dots> = 2 powi bitlen p"
      using bp1 by (simp add: power_int_nonneg_exp)
    finally show ?thesis .
  qed
  have Q1: "(2::rat) powi (bitlen q - 1) \<le> of_int q"
  proof -
    have "(2::rat) powi (bitlen q - 1) = 2 ^ nat (bitlen q - 1)"
      using bq1 by (simp add: power_int_nonneg_exp)
    also have "\<dots> = of_int (2 ^ nat (bitlen q - 1))" by simp
    also have "\<dots> \<le> of_int q" using bq(1) by (simp only: of_int_le_iff)
    finally show ?thesis .
  qed
  have Q2: "of_int q < (2::rat) powi bitlen q"
  proof -
    have "(of_int q :: rat) < of_int (2 ^ nat (bitlen q))"
      using bq(2) by (simp only: of_int_less_iff)
    also have "\<dots> = 2 powi bitlen q"
      using bq1 by (simp add: power_int_nonneg_exp)
    finally show ?thesis .
  qed
  have qpos: "(0::rat) < of_int q" using q by simp
  have upper: "\<bar>x\<bar> < 2 powi (e + 1)"
  proof -
    have "of_int p * (2::rat) powi (bitlen q - 1) < 2 powi bitlen p * of_int q"
      using P2 Q1 qpos
      by (meson less_le_trans mult_le_cancel_left_pos mult_strict_right_mono
          zero_less_power_int zero_less_numeral p of_int_0_less_iff)
    then have "of_int p / of_int q < (2::rat) powi bitlen p / 2 powi (bitlen q - 1)"
      using qpos by (simp add: field_simps)
    also have "\<dots> = 2 powi (bitlen p - (bitlen q - 1))"
      by (rule power_int_diff [symmetric]) simp
    also have "bitlen p - (bitlen q - 1) = e + 1"
      by (simp add: e_def)
    finally show ?thesis unfolding x .
  qed
  have lower: "2 powi (e - 1) < \<bar>x\<bar>"
  proof -
    have "(2::rat) powi (bitlen p - 1) * of_int q < of_int p * 2 powi bitlen q"
      using P1 Q2 qpos
      by (meson le_less_trans less_le_trans mult_le_cancel_right_pos mult_strict_left_mono
          zero_less_power_int zero_less_numeral p of_int_0_less_iff)
    then have "(2::rat) powi (bitlen p - 1) / 2 powi bitlen q < of_int p / of_int q"
      using qpos by (simp add: field_simps)
    moreover have "(2::rat) powi (bitlen p - 1) / 2 powi bitlen q =
        2 powi (bitlen p - 1 - bitlen q)"
      by (rule power_int_diff [symmetric]) simp
    moreover have "bitlen p - 1 - bitlen q = e - 1"
      by (simp add: e_def)
    ultimately show ?thesis unfolding x by simp
  qed
  have b: "binade x = (if 2 powi e \<le> \<bar>x\<bar> then e else e - 1)"
    by (simp add: binade_def pq e_def)
  show "2 powi binade x \<le> \<bar>x\<bar>"
    using lower by (simp add: b)
  show "\<bar>x\<bar> < 2 powi (binade x + 1)"
    using upper by (auto simp: b)
qed

lemma round_half_even_nonpos: "y \<le> 0 \<Longrightarrow> round_half_even y \<le> 0"
proof -
  assume y: "y \<le> 0"
  have f: "of_int \<lfloor>y\<rfloor> \<le> y" by linarith
  have "\<lfloor>y\<rfloor> \<le> - 1" if "1 / 2 \<le> y - of_int \<lfloor>y\<rfloor>"
  proof -
    from that y have "(of_int \<lfloor>y\<rfloor> :: rat) < 0" by linarith
    then have "\<lfloor>y\<rfloor> < 0" by (simp only: of_int_less_0_iff)
    then have "\<lfloor>y\<rfloor> + 1 \<le> 0" by (rule zless_imp_add1_zle)
    then show ?thesis by (simp only: le_diff_eq [symmetric] diff_0)
  qed
  moreover have "\<lfloor>y\<rfloor> \<le> 0" using y by (simp add: floor_le_zero)
  ultimately show ?thesis
    by (auto simp: round_half_even_def Let_def not_less)
qed

lemma ulp_pos: "0 < (2::rat) powi e"
  by (simp add: zero_less_power_int)

lemma round_double_nonneg: "0 \<le> x \<Longrightarrow> 0 \<le> round_double x"
  by (simp add: round_double_def Let_def round_half_even_nonneg ulp_pos less_imp_le)

lemma round_double_nonpos: "x \<le> 0 \<Longrightarrow> round_double x \<le> 0"
  by (simp add: round_double_def Let_def mult_le_0_iff round_half_even_nonpos ulp_pos
      less_imp_le divide_le_0_iff)

lemma round_double_ulp_error:
  assumes "x \<noteq> 0"
  shows "\<bar>round_double x - x\<bar> \<le> 2 powi (max (binade x) (- 1022) - 53)"
proof -
  define u :: rat where "u = 2 powi (max (binade x) (- 1022) - 52)"
  have u: "0 < u" by (simp add: u_def ulp_pos)
  have "round_double x - x = (of_int (round_half_even (x / u)) - x / u) * u"
    using assms u by (simp add: round_double_def u_def [symmetric] Let_def algebra_simps)
  then have "\<bar>round_double x - x\<bar> = \<bar>of_int (round_half_even (x / u)) - x / u\<bar> * u"
    using u by (simp add: abs_mult)
  also have "\<dots> \<le> 1 / 2 * u"
    using round_half_even_error [of "x / u"] u by (intro mult_right_mono) simp_all
  also have "1 / 2 * u = 2 powi (max (binade x) (- 1022) - 53)"
  proof -
    have "(2::rat) powi (max (binade x) (- 1022) - 53 + 1) =
        2 powi (max (binade x) (- 1022) - 53) * 2 powi 1"
      by (rule power_int_add) simp
    moreover have "max (binade x) (- 1022) - 53 + 1 = max (binade x) (- 1022) - 52"
      by simp
    ultimately show ?thesis
      by (simp add: u_def)
  qed
  finally show ?thesis .
qed

lemma binade_ge:
  assumes "2 powi e \<le> \<bar>x\<bar>"
  shows "e \<le> binade x"
proof -
  have "0 < \<bar>x\<bar>" using assms ulp_pos [of e] by linarith
  then have "x \<noteq> 0" by simp
  then have "(2::rat) powi e < 2 powi (binade x + 1)"
    using assms binade_bounds(2) [of x] by (rule_tac le_less_trans)
  have "e < binade x + 1"
  proof (rule ccontr)
    assume "\<not> e < binade x + 1"
    then have "binade x + 1 \<le> e" by simp
    then have "(2::rat) powi (binade x + 1) \<le> 2 powi e"
      by (rule power_int_increasing) simp
    with \<open>(2::rat) powi e < 2 powi (binade x + 1)\<close> show False by simp
  qed
  then show ?thesis by simp
qed

text \<open>Relative error of rounding in the normal range.\<close>

lemma round_double_error:
  assumes "2 powi (- 1022) \<le> \<bar>x\<bar>"
  shows "\<bar>round_double x - x\<bar> \<le> \<bar>x\<bar> / 2 ^ 53"
proof -
  have "0 < \<bar>x\<bar>" using assms ulp_pos [of "- 1022"] by linarith
  then have nz: "x \<noteq> 0" by simp
  have b: "- 1022 \<le> binade x" using assms by (rule binade_ge)
  have "\<bar>round_double x - x\<bar> \<le> 2 powi (binade x - 53)"
    using round_double_ulp_error [OF nz] b by (simp add: max_def)
  also have "\<dots> = 2 powi binade x / 2 ^ 53"
    by (simp add: power_int_diff)
  also have "\<dots> \<le> \<bar>x\<bar> / 2 ^ 53"
    using binade_bounds(1) [OF nz] by (simp add: divide_right_mono)
  finally show ?thesis .
qed

text \<open>Absolute error of rounding anywhere.\<close>

lemma round_double_error_any: "\<bar>round_double x - x\<bar> \<le> \<bar>x\<bar> / 2 ^ 53 + 1 / 2 ^ 1075"
proof (cases "2 powi (- 1022) \<le> \<bar>x\<bar>")
  case True
  then show ?thesis using round_double_error [of x] by simp
next
  case False
  show ?thesis
  proof (cases "x = 0")
    case True
    then show ?thesis by (simp add: round_double_def)
  next
    case nz: False
    have "binade x < - 1022"
    proof (rule ccontr)
      assume "\<not> binade x < - 1022"
      then have "- 1022 \<le> binade x" by simp
      then have "(2::rat) powi (- 1022) \<le> 2 powi binade x"
        by (rule power_int_increasing) simp
      with binade_bounds(1) [OF nz] False show False by simp
    qed
    then have "\<bar>round_double x - x\<bar> \<le> 2 powi (- 1022 - 53)"
      using round_double_ulp_error [OF nz] by (simp add: max_def)
    also have "(2::rat) powi (- 1022 - 53) = 1 / 2 ^ 1075"
      by (simp add: power_int_minus_divide)
    finally have "\<bar>round_double x - x\<bar> \<le> 1 / 2 ^ 1075" .
    moreover have "0 \<le> \<bar>x\<bar> / 2 ^ 53" by simp
    ultimately show ?thesis by (rule_tac order_trans [where y = "1 / 2 ^ 1075"]) simp_all
  qed
qed

text \<open>
  The landscape height of line 82 in double arithmetic against the exact quotient: for a
  screen edge below \<open>2\<^sup>3\<^sup>1\<close> the two roundings move the quotient by less than one, so
  its floor moves by at most one.
\<close>

lemma floor_close:
  fixes a b :: rat
  assumes "\<bar>a - b\<bar> < 1"
  shows "\<bar>\<lfloor>a\<rfloor> - \<lfloor>b\<rfloor>\<bar> \<le> 1"
proof -
  have ab: "a \<le> b + 1" and ba: "b \<le> a + 1" using assms by linarith+
  have "\<lfloor>a\<rfloor> \<le> \<lfloor>b + 1\<rfloor>" using ab by (rule floor_mono)
  moreover have "\<lfloor>b\<rfloor> \<le> \<lfloor>a + 1\<rfloor>" using ba by (rule floor_mono)
  ultimately show ?thesis by simp
qed

lemma landscape_height_error:
  fixes r :: rat and L :: nat
  assumes landscape: "1 \<le> round_double r" and screen: "L < 2 ^ 31"
  shows "\<bar>\<lfloor>round_double (of_nat L / round_double r)\<rfloor> - \<lfloor>of_nat L / r\<rfloor>\<bar> \<le> 1"
proof -
  define \<rho> where "\<rho> = round_double r"
  define x :: rat where "x = of_nat L / \<rho>"
  define l :: rat where "l = of_nat L"
  have \<rho>: "1 \<le> \<rho>" using landscape by (simp add: \<rho>_def)
  have l0: "0 \<le> l" by (simp add: l_def)
  have "(of_nat L :: rat) < of_nat (2 ^ 31)" using screen by (simp only: of_nat_less_iff)
  then have l31: "l < 2 ^ 31" by (simp add: l_def)
  have tiny: "(1::rat) / 2 ^ 1075 \<le> 1 / 4"
    by simp
  have rpos: "0 < r"
  proof (rule ccontr)
    assume "\<not> 0 < r"
    then have "round_double r \<le> 0" by (intro round_double_nonpos) simp
    with landscape show False by simp
  qed
  have half: "1 / 2 \<le> r"
  proof (rule ccontr)
    assume "\<not> 1 / 2 \<le> r"
    then have r: "r < 1 / 2" by simp
    have "\<bar>\<rho> - r\<bar> \<le> \<bar>r\<bar> / 2 ^ 53 + 1 / 2 ^ 1075"
      unfolding \<rho>_def by (rule round_double_error_any)
    moreover have "\<bar>r\<bar> / 2 ^ 53 \<le> \<bar>r\<bar> / 4"
      by (intro divide_left_mono) simp_all
    ultimately have "\<bar>\<rho> - r\<bar> \<le> \<bar>r\<bar> / 4 + 1 / 4" using tiny by linarith
    with r rpos \<rho> show False by linarith
  qed
  have "(2::rat) powi (- 1022) \<le> 1 / 2"
    by (simp add: power_int_minus_divide)
  then have "2 powi (- 1022) \<le> \<bar>r\<bar>" using half by linarith
  then have "\<bar>\<rho> - r\<bar> \<le> \<bar>r\<bar> / 2 ^ 53"
    unfolding \<rho>_def by (rule round_double_error)
  then have er: "\<bar>\<rho> - r\<bar> \<le> r / 2 ^ 53" using rpos by simp
  have x0: "0 \<le> x" using l0 \<rho> by (simp add: x_def l_def)
  have xl: "x \<le> l"
  proof -
    have "l / \<rho> \<le> l / 1" using l0 \<rho> by (intro divide_left_mono) simp_all
    then show ?thesis by (simp add: x_def l_def)
  qed
  have d1: "\<bar>x - l / r\<bar> \<le> l / 2 ^ 53"
  proof -
    have "x - l / r = l * (r - \<rho>) / (\<rho> * r)"
      using \<rho> rpos by (simp add: x_def l_def field_simps)
    then have "\<bar>x - l / r\<bar> = l * \<bar>\<rho> - r\<bar> / (\<rho> * r)"
      using \<rho> rpos l0 by (simp add: abs_mult abs_minus_commute abs_of_nonneg abs_of_pos)
    also have "\<dots> \<le> l * (r / 2 ^ 53) / (\<rho> * r)"
      using er l0 \<rho> rpos by (intro divide_right_mono mult_left_mono) simp_all
    also have "\<dots> = l / 2 ^ 53 / \<rho>"
      using rpos by simp
    also have "\<dots> \<le> l / 2 ^ 53 / 1"
      using l0 \<rho> by (intro divide_left_mono) simp_all
    finally show ?thesis by simp
  qed
  have d2: "\<bar>round_double x - x\<bar> \<le> l / 2 ^ 53 + 1 / 4"
  proof -
    have "\<bar>round_double x - x\<bar> \<le> \<bar>x\<bar> / 2 ^ 53 + 1 / 2 ^ 1075"
      by (rule round_double_error_any)
    moreover have "\<bar>x\<bar> / 2 ^ 53 \<le> l / 2 ^ 53"
      using x0 xl by (simp add: divide_right_mono)
    ultimately show ?thesis using tiny by linarith
  qed
  have "l / 2 ^ 53 < 2 ^ 31 / 2 ^ 53"
    using l31 by (simp add: divide_strict_right_mono)
  also have "(2::rat) ^ 31 / 2 ^ 53 \<le> 1 / 4" by simp
  finally have small: "l / 2 ^ 53 < 1 / 4" .
  have "\<bar>round_double x - l / r\<bar> < 1"
    using d1 d2 small by linarith
  then have "\<bar>\<lfloor>round_double x\<rfloor> - \<lfloor>l / r\<rfloor>\<bar> \<le> 1"
    by (rule floor_close)
  then show ?thesis
    by (simp add: x_def \<rho>_def l_def)
qed

subsection \<open>The range of a slide size\<close>

lemma slide_size_bound: "\<bar>slide_width p\<bar> < 2 ^ 128" "\<bar>slide_height p\<bar> < 2 ^ 128"
  using Rep_single [of "page_width p"] Rep_single [of "page_height p"]
  by (simp_all add: slide_width_def slide_height_def)

lemma single_nonzero: "Rep_single s \<noteq> 0 \<Longrightarrow> 1 / 2 ^ 149 \<le> \<bar>Rep_single s\<bar>"
proof -
  assume nz: "Rep_single s \<noteq> 0"
  define x where "x = Rep_single s"
  define u where "u = single_ulp x"
  define k where "k = \<lfloor>x / u\<rfloor>"
  have u: "0 < u"
    by (simp add: u_def single_ulp_def zero_less_power_int)
  have k: "of_int k = x / u"
    using Rep_single [of s] by (simp add: k_def x_def u_def)
  then have "k \<noteq> 0"
    using nz u by (auto simp: x_def)
  then have "1 \<le> \<bar>k\<bar>"
    by simp
  then have "(1::rat) \<le> \<bar>of_int k\<bar>"
    by (simp only: of_int_abs [symmetric] of_int_1_le_iff)
  then have "1 \<le> \<bar>x\<bar> / u"
    using u by (simp add: k)
  then have "u \<le> \<bar>x\<bar>"
    using u by (simp add: field_simps)
  moreover have "2 powi (- 149) \<le> u"
    unfolding u_def single_ulp_def by (rule power_int_increasing) simp_all
  moreover have "(2::rat) powi (- 149) = 1 / 2 ^ 149"
    by (simp add: power_int_minus_divide)
  ultimately show ?thesis
    by (simp add: x_def)
qed

lemma below_float_limit: "\<bar>x\<bar> < 2 ^ 1023 \<Longrightarrow> \<not> float_limit \<le> \<bar>x\<bar>"
proof -
  have "(2::rat) ^ 1023 \<le> float_limit"
    by (simp add: float_limit_def)
  then show "\<bar>x\<bar> < 2 ^ 1023 \<Longrightarrow> \<not> float_limit \<le> \<bar>x\<bar>"
    by linarith
qed

text \<open>Twice a slide size is a finite float (lines 90-91, and lines 95-96 at scale 2).\<close>

lemma doubled_size_finite:
  "\<not> float_limit \<le> \<bar>slide_width p * 2\<bar>" "\<not> float_limit \<le> \<bar>slide_height p * 2\<bar>"
proof -
  have "(2::rat) ^ 128 * 2 \<le> 2 ^ 1023"
    by simp
  then have "\<bar>slide_width p * 2\<bar> < 2 ^ 1023" "\<bar>slide_height p * 2\<bar> < 2 ^ 1023"
    using slide_size_bound [of p] by (simp_all add: abs_mult)
  then show "\<not> float_limit \<le> \<bar>slide_width p * 2\<bar>" "\<not> float_limit \<le> \<bar>slide_height p * 2\<bar>"
    by (simp_all only: below_float_limit not_False_eq_True)
qed

text \<open>The ratio of the slide sizes is a finite float (line 78).\<close>

lemma slide_ratio_finite:
  assumes "slide_height p \<noteq> 0"
  shows "\<not> float_limit \<le> \<bar>slide_width p / slide_height p\<bar>"
proof -
  have h: "1 / 2 ^ 149 \<le> \<bar>slide_height p\<bar>"
    using assms single_nonzero [of "page_height p"] by (simp add: slide_height_def)
  then have hpos: "0 < \<bar>slide_height p\<bar>"
    by (rule less_le_trans [rotated]) simp
  have "\<bar>slide_width p\<bar> / \<bar>slide_height p\<bar> \<le> \<bar>slide_width p\<bar> / (1 / 2 ^ 149)"
    using h by (intro divide_left_mono) simp_all
  also have "\<dots> = \<bar>slide_width p\<bar> * 2 ^ 149"
    by simp
  also have "\<dots> < 2 ^ 128 * 2 ^ 149"
    using slide_size_bound(1) [of p] by (intro mult_strict_right_mono) simp_all
  also have "(2::rat) ^ 128 * 2 ^ 149 \<le> 2 ^ 1023"
    by simp
  finally have "\<bar>slide_width p / slide_height p\<bar> < 2 ^ 1023"
    by simp
  then show ?thesis
    by (rule below_float_limit)
qed

subsection \<open>Doubling a slide size\<close>

text \<open>
  On a host with the rounding of doubles, twice a \<^verbatim>\<open>Single\<close> is computed exactly: the
  products of lines 90-91, and of lines 95-96 at scale 2, are not rounded.
\<close>

lemma binade_unique:
  assumes "2 powi e \<le> \<bar>x\<bar>" and "\<bar>x\<bar> < 2 powi (e + 1)"
  shows "binade x = e"
proof -
  have "0 < \<bar>x\<bar>" using assms(1) ulp_pos [of e] by linarith
  then have nz: "x \<noteq> 0" by simp
  have "e \<le> binade x" using assms(1) by (rule binade_ge)
  moreover have "binade x < e + 1"
  proof (rule ccontr)
    assume "\<not> binade x < e + 1"
    then have "e + 1 \<le> binade x" by simp
    then have "(2::rat) powi (e + 1) \<le> 2 powi binade x"
      by (rule power_int_increasing) simp
    with binade_bounds(1) [OF nz] assms(2) show False by linarith
  qed
  ultimately show ?thesis by simp
qed

lemma binade_double:
  assumes "x \<noteq> 0"
  shows "binade (x * 2) = binade x + 1"
proof (rule binade_unique)
  have "(2::rat) powi (binade x + 1) = 2 powi binade x * 2 powi 1"
    by (rule power_int_add) simp
  then show "2 powi (binade x + 1) \<le> \<bar>x * 2\<bar>"
    using binade_bounds(1) [OF assms] by (simp add: abs_mult)
  have "(2::rat) powi (binade x + 1 + 1) = 2 powi (binade x + 1) * 2 powi 1"
    by (rule power_int_add) simp
  then show "\<bar>x * 2\<bar> < 2 powi (binade x + 1 + 1)"
    using binade_bounds(2) [OF assms] by (simp add: abs_mult)
qed

lemma round_double_exact:
  assumes "of_int k = x / 2 powi (max (binade x) (- 1022) - 52)"
  shows "round_double x = x"
proof (cases "x = 0")
  case True
  then show ?thesis by (simp add: round_double_def)
next
  case False
  have u: "(0::rat) < 2 powi (max (binade x) (- 1022) - 52)" by (rule ulp_pos)
  have "round_double x = of_int k * 2 powi (max (binade x) (- 1022) - 52)"
    using False by (simp add: round_double_def Let_def assms [symmetric])
  also have "\<dots> = x" using u by (simp add: assms)
  finally show ?thesis .
qed

lemma single_doubled_exact: "round_double (Rep_single s * 2) = Rep_single s * 2"
proof (cases "Rep_single s = 0")
  case True
  then show ?thesis by (simp add: round_double_def)
next
  case False
  define x where "x = Rep_single s"
  define b where "b = binade x"
  define k where "k = \<lfloor>x / single_ulp x\<rfloor>"
  define d where "d = max b (- 126) - max (b + 1) (- 1022) + 30"
  have nz: "x \<noteq> 0" using False by (simp add: x_def)
  have k: "of_int k = x / 2 powi (max b (- 126) - 23)"
    using Rep_single [of s] by (simp add: k_def x_def b_def single_ulp_def)
  have d: "0 \<le> d" by (simp add: d_def max_def)
  have b2: "binade (x * 2) = b + 1"
    using nz by (simp add: binade_double b_def)
  have e: "max (b + 1) (- 1022) - 52 + d = max b (- 126) - 23 + 1"
    by (simp add: d_def)
  have "(2::rat) powi (max (b + 1) (- 1022) - 52 + d) =
      2 powi (max (b + 1) (- 1022) - 52) * 2 powi d"
    by (rule power_int_add) simp
  moreover have "(2::rat) powi (max b (- 126) - 23 + 1) =
      2 powi (max b (- 126) - 23) * 2 powi 1"
    by (rule power_int_add) simp
  ultimately have pw: "(2::rat) powi (max (b + 1) (- 1022) - 52) * 2 powi d =
      2 powi (max b (- 126) - 23) * 2"
    using e by simp
  have "of_int (k * 2 ^ nat d) = of_int k * (2::rat) powi d"
    using d by (simp add: power_int_nonneg_exp)
  also have "\<dots> = x / 2 powi (max b (- 126) - 23) * 2 powi d"
    by (simp add: k)
  also have "\<dots> = x * 2 / 2 powi (max (b + 1) (- 1022) - 52)"
  proof -
    have p1: "(0::rat) < 2 powi (max b (- 126) - 23)" by (rule ulp_pos)
    have p2: "(0::rat) < 2 powi (max (b + 1) (- 1022) - 52)" by (rule ulp_pos)
    have "(2::rat) powi d = 2 powi (max b (- 126) - 23) * 2 / 2 powi (max (b + 1) (- 1022) - 52)"
      using pw p2 by (simp add: field_simps)
    then show ?thesis using p1 p2 by (simp add: field_simps)
  qed
  finally have "of_int (k * 2 ^ nat d) = x * 2 / 2 powi (max (binade (x * 2)) (- 1022) - 52)"
    by (simp only: b2)
  then have "round_double (x * 2) = x * 2"
    by (rule round_double_exact)
  then show ?thesis by (simp add: x_def)
qed

lemma ieee_doubling_exact:
  assumes "rnd w = round_double"
  shows "rnd w (slide_width p * 2) = slide_width p * 2"
    and "rnd w (slide_height p * 2) = slide_height p * 2"
  by (simp_all add: assms slide_width_def slide_height_def single_doubled_exact)

subsection \<open>When the target resolution raises\<close>

text \<open>
  Only the manual branch raises: when \<^verbatim>\<open>scale\<close> is too large for a float, or a product
  of line 95 or 96 is infinite.
\<close>

lemma resolution_raises_iff:
  "resolution_raises w p scale =
     (\<exists>m. scale = Some m \<and> m \<noteq> 0 \<and>
        (float_limit \<le> \<bar>of_int m\<bar>
         \<or> (\<exists>s. to_float w m = Inr s \<and>
               (float_limit \<le> \<bar>slide_width p * s\<bar> \<or> float_limit \<le> \<bar>slide_height p * s\<bar>))))"
  by (cases scale)
    (auto simp: resolution_raises_def target_resolution_def manual_resolution_def to_float_def
      split: sum.splits if_splits)

lemma resolution_raises_None [simp]: "\<not> resolution_raises w p None"
  by (simp add: resolution_raises_def target_resolution_def)

lemma resolution_raises_zero [simp]: "\<not> resolution_raises w p (Some 0)"
  by (simp add: resolution_raises_def target_resolution_def)

text \<open>A scale up to \<open>2\<^sup>5\<^sup>3\<close> in magnitude never raises.\<close>

lemma to_float_exact: "\<bar>m\<bar> \<le> 2 ^ 53 \<Longrightarrow> to_float w m = Inr (of_int m)"
proof -
  assume m: "\<bar>m\<bar> \<le> 2 ^ 53"
  then have "(of_int \<bar>m\<bar> :: rat) \<le> of_int (2 ^ 53)"
    by (simp only: of_int_le_iff)
  then have "\<bar>of_int m :: rat\<bar> \<le> 2 ^ 53"
    by simp
  moreover have "(2::rat) ^ 53 < 2 ^ 1023"
    by simp
  ultimately have "\<bar>of_int m :: rat\<bar> < 2 ^ 1023"
    by (rule le_less_trans)
  then have "\<not> float_limit \<le> \<bar>of_int m :: rat\<bar>"
    by (rule below_float_limit)
  with m show ?thesis
    by (simp add: to_float_def)
qed

lemma small_scale_never_raises:
  assumes "\<bar>m\<bar> \<le> 2 ^ 53"
  shows "\<not> resolution_raises w p (Some m)"
proof -
  have "(of_int \<bar>m\<bar> :: rat) \<le> of_int (2 ^ 53)"
    using assms by (simp only: of_int_le_iff)
  then have m: "\<bar>of_int m :: rat\<bar> \<le> 2 ^ 53"
    by simp
  have "\<bar>x * of_int m\<bar> < 2 ^ 1023" if "\<bar>x\<bar> < 2 ^ 128" for x :: rat
  proof -
    have "\<bar>x\<bar> * \<bar>of_int m\<bar> \<le> 2 ^ 128 * 2 ^ 53"
      using that m by (intro mult_mono) simp_all
    also have "(2::rat) ^ 128 * 2 ^ 53 < 2 ^ 1023"
      by simp
    finally show ?thesis
      by (simp add: abs_mult)
  qed
  then have "\<not> float_limit \<le> \<bar>slide_width p * of_int m\<bar>"
    "\<not> float_limit \<le> \<bar>slide_height p * of_int m\<bar>"
    using slide_size_bound [of p] by (simp_all only: below_float_limit not_False_eq_True)
  then show ?thesis
    by (simp add: resolution_raises_def target_resolution_def manual_resolution_def
        to_float_exact [OF assms] split: option.splits)
qed

subsection \<open>The parts of a run\<close>

lemma export_loop_lines:
  "concat (map range_line (fst (export_loop w p out tw th is c))) = []"
  "concat (map size_line (fst (export_loop w p out tw th is c))) = []"
  "concat (map close_call (fst (export_loop w p out tw th is c))) = []"
  "concat (map manual_line (fst (export_loop w p out tw th is c))) = []"
  "concat (map error_line (fst (export_loop w p out tw th is c))) = []"
  by (induction "is" arbitrary: c; simp add: Let_def case_prod_unfold split: option.splits
      del: concat_eq_Nil_conv)+

lemma ensure_output_dir_lines:
  "concat (map range_line (fst (ensure_output_dir w out))) = []"
  "concat (map size_line (fst (ensure_output_dir w out))) = []"
  "concat (map close_call (fst (ensure_output_dir w out))) = []"
  "concat (map manual_line (fst (ensure_output_dir w out))) = []"
  "concat (map error_line (fst (ensure_output_dir w out))) = []"
  "concat (map export_call (fst (ensure_output_dir w out))) = []"
  by (simp_all add: ensure_output_dir_def split: option.splits)

lemma auto_mode_lines:
  "range_line (Print (fst (auto_resolution w sw sh))) = []"
  "size_line (Print (fst (auto_resolution w sw sh))) = []"
  "close_call (Print (fst (auto_resolution w sw sh))) = []"
  "error_line (Print (fst (auto_resolution w sw sh))) = []"
  "manual_line (Print (fst (auto_resolution w sw sh))) = []"
  by (simp_all add: auto_resolution_def fallback_resolution_def Let_def
      split: sum.splits prod.splits)

lemma mode_lines:
  assumes "target_resolution w sw sh scale = Inr (mode, tw, th)"
  shows "range_line (Print mode) = []" "size_line (Print mode) = []"
    "close_call (Print mode) = []" "error_line (Print mode) = []"
    "\<not> truthy_scale scale \<Longrightarrow> manual_line (Print mode) = []"
proof -
  have "mode = fst (auto_resolution w sw sh) \<or> (\<exists>m. mode = ModeManual m \<and> truthy_scale scale)"
    using assms
    by (auto simp: target_resolution_def manual_resolution_def
        split: if_splits option.splits sum.splits)
  then show "range_line (Print mode) = []" "size_line (Print mode) = []"
    "close_call (Print mode) = []" "error_line (Print mode) = []"
    "\<not> truthy_scale scale \<Longrightarrow> manual_line (Print mode) = []"
    by (auto simp: auto_mode_lines)
qed

lemma convert_range_lines:
  "concat (map range_line (fst (convert w p pptx out r scale))) =
     (if resolution_raises w p scale then [] else [slide_range (slides_count p) r])"
  by (auto simp: convert_def resolution_raises_def Let_def case_prod_unfold export_loop_lines
      mode_lines split: sum.splits simp del: concat_eq_Nil_conv)

lemma convert_size_lines:
  "concat (map size_line (fst (convert w p pptx out r scale))) =
     (case target_resolution w (slide_width p) (slide_height p) scale of
        Inl e \<Rightarrow> []
      | Inr (mode, tw, th) \<Rightarrow> [(tw, th)])"
  by (auto simp: convert_def Let_def case_prod_unfold export_loop_lines
      mode_lines split: sum.splits simp del: concat_eq_Nil_conv)

lemma convert_close_calls:
  "concat (map close_call (fst (convert w p pptx out r scale))) = []"
  by (auto simp: convert_def Let_def case_prod_unfold export_loop_lines
      mode_lines split: sum.splits simp del: concat_eq_Nil_conv)

lemma convert_error_lines:
  "concat (map error_line (fst (convert w p pptx out r scale))) = []"
  by (auto simp: convert_def Let_def case_prod_unfold export_loop_lines
      mode_lines split: sum.splits simp del: concat_eq_Nil_conv)

lemma convert_manual_lines:
  "\<not> truthy_scale scale \<Longrightarrow>
     concat (map manual_line (fst (convert w p pptx out r scale))) = []"
  by (auto simp: convert_def Let_def case_prod_unfold export_loop_lines
      mode_lines split: sum.splits simp del: concat_eq_Nil_conv)

text \<open>A call without a callable \<^verbatim>\<open>range\<close> stops at line 105, before the first export.\<close>

lemma convert_not_callable:
  assumes "r \<noteq> RangeCallable"
  shows "concat (map export_call (fst (convert w p pptx out r scale))) = []"
    and "\<not> resolution_raises w p scale \<Longrightarrow> snd (convert w p pptx out r scale) = Some TypeError"
  using assms
  by (cases r; simp add: convert_def resolution_raises_def Let_def case_prod_unfold
      split: sum.splits)+

text \<open>The run of a call that opens the presentation \<open>p\<close>.\<close>

lemma topng_opens:
  assumes "opens w pptx output_dir p"
  shows "topng w pptx output_dir r scale =
     \<lparr>outcome = (case close_result p of Some e \<Rightarrow> Raised e | None \<Rightarrow> Returned),
      events = fst (ensure_output_dir w (abspath w output_dir))
               @ [Dispatch, Open (abspath w pptx)]
               @ fst (convert w p pptx (abspath w output_dir) r scale)
               @ (case snd (convert w p pptx (abspath w output_dir) r scale) of
                    Some e \<Rightarrow> [Print (ErrConversion e)] | None \<Rightarrow> [])
               @ [Close]\<rparr>"
  using assms
  by (auto simp: opens_def topng_def Let_def split: prod.splits option.splits)

lemma topng_effective_ranges:
  "opens w pptx output_dir p \<Longrightarrow>
     effective_ranges (topng w pptx output_dir r scale) =
       (if resolution_raises w p scale then [] else [slide_range (slides_count p) r])"
  by (simp add: topng_opens effective_ranges_def ensure_output_dir_lines convert_range_lines
      split: option.splits del: concat_eq_Nil_conv)

lemma topng_target_sizes:
  "opens w pptx output_dir p \<Longrightarrow>
     target_sizes (topng w pptx output_dir r scale) =
       (case target_resolution w (slide_width p) (slide_height p) scale of
          Inl e \<Rightarrow> []
        | Inr (mode, tw, th) \<Rightarrow> [(tw, th)])"
  by (simp add: topng_opens target_sizes_def ensure_output_dir_lines convert_size_lines
      split: option.splits del: concat_eq_Nil_conv)

lemma topng_not_callable:
  "opens w pptx output_dir p \<Longrightarrow> r \<noteq> RangeCallable \<Longrightarrow> \<not> resolution_raises w p scale \<Longrightarrow>
     exported (topng w pptx output_dir r scale) = [] \<and>
     reported (topng w pptx output_dir r scale) = [TypeError]"
  by (simp add: topng_opens exported_def reported_def ensure_output_dir_lines
      convert_not_callable convert_error_lines del: concat_eq_Nil_conv)

lemma opens_host: "opens host ''C:/deck.pptx'' ''C:/out'' deck"
  by (simp add: opens_def host_def ensure_output_dir_def)

lemma opens_broken_host: "opens broken_host ''C:/deck.pptx'' ''C:/out'' broken_deck"
  by (simp add: opens_def broken_host_def host_def ensure_output_dir_def)

lemma opens_ieee_host: "opens ieee_host ''C:/deck.pptx'' ''C:/out'' deck"
  by (simp add: opens_def ieee_host_def host_def ensure_output_dir_def)

lemma opens_wide_host: "opens wide_host ''C:/deck.pptx'' ''C:/out'' wide_deck"
  by (simp add: opens_def wide_host_def host_def ensure_output_dir_def)

lemma deck_size: "slide_width deck = 4095 / 4" "slide_height deck = 4095 / 8"
  by (simp_all add: slide_width_def slide_height_def deck_def deck_width.rep_eq
      deck_height.rep_eq)

lemma wide_deck_size: "slide_width wide_deck = 420" "slide_height wide_deck = 375"
  by (simp_all add: slide_width_def slide_height_def wide_deck_def wide_width.rep_eq
      wide_height.rep_eq)

text \<open>The loop on the broken deck: slide 1 is saved, the export of slide 2 raises.\<close>

lemma broken_loop:
  "export_loop w broken_deck out tw th [1..10] 0 =
     ([Export 1 (join w out ''Slide_1.png'') tw th, Print (Saved ''Slide_1.png''),
       Export 2 (join w out ''Slide_2.png'') tw th], Inl ComError)"
  by (simp add: upto.simps broken_deck_def deck_def show_int_def show_nat.simps Let_def)

lemma broken_convert:
  assumes "\<not> resolution_raises w broken_deck scale"
  shows "concat (map export_call (fst (convert w broken_deck pptx out RangeCallable scale))) =
           [(1, join w out ''Slide_1.png''), (2, join w out ''Slide_2.png'')]"
    and "snd (convert w broken_deck pptx out RangeCallable scale) = Some ComError"
proof -
  have n: "slides_count broken_deck = 10"
    by (simp add: broken_deck_def deck_def)
  show "concat (map export_call (fst (convert w broken_deck pptx out RangeCallable scale))) =
           [(1, join w out ''Slide_1.png''), (2, join w out ''Slide_2.png'')]"
    and "snd (convert w broken_deck pptx out RangeCallable scale) = Some ComError"
    using assms
    by (simp_all add: convert_def resolution_raises_def slide_range_def n Let_def
        case_prod_unfold broken_loop split: sum.splits)
qed

lemma py_int_nonneg: "0 \<le> x \<Longrightarrow> py_int x = \<lfloor>x\<rfloor>"
  by (simp add: py_int_def)

subsection \<open>Exported files\<close>

text \<open>
  Claim C1: a call exports one PNG per selected slide, \<^verbatim>\<open>Slide_s.png\<close> to
  \<^verbatim>\<open>Slide_e.png\<close>; without a range, one per slide of the document.

  The code does not: the parameter \<^verbatim>\<open>range\<close> shadows the builtin, so line 105 calls
  \<^verbatim>\<open>None\<close> or the list itself and raises \<^verbatim>\<open>TypeError\<close> before the first export.
  On the ten-slide example deck, a call without a range and a call with the valid range
  \<open>[2, 4]\<close> both print their range (1 to 10, 2 to 4), export no slide, report the
  \<^verbatim>\<open>TypeError\<close> and return.
\<close>

theorem topng_exports_no_slide:
  "exported (topng host ''C:/deck.pptx'' ''C:/out'' NoRange None) = []
   \<and> effective_ranges (topng host ''C:/deck.pptx'' ''C:/out'' NoRange None) = [(1, 10)]
   \<and> reported (topng host ''C:/deck.pptx'' ''C:/out'' NoRange None) = [TypeError]
   \<and> exported (topng host ''C:/deck.pptx'' ''C:/out'' (RangeList [2, 4]) None) = []
   \<and> effective_ranges (topng host ''C:/deck.pptx'' ''C:/out'' (RangeList [2, 4]) None) = [(2, 4)]
   \<and> reported (topng host ''C:/deck.pptx'' ''C:/out'' (RangeList [2, 4]) None) = [TypeError]
   \<and> outcome (topng host ''C:/deck.pptx'' ''C:/out'' (RangeList [2, 4]) None) = Returned"
proof -
  have none: "exported (topng host ''C:/deck.pptx'' ''C:/out'' NoRange None) = []
      \<and> reported (topng host ''C:/deck.pptx'' ''C:/out'' NoRange None) = [TypeError]"
    by (rule topng_not_callable [OF opens_host]) simp_all
  have list: "exported (topng host ''C:/deck.pptx'' ''C:/out'' (RangeList [2, 4]) None) = []
      \<and> reported (topng host ''C:/deck.pptx'' ''C:/out'' (RangeList [2, 4]) None) = [TypeError]"
    by (rule topng_not_callable [OF opens_host]) simp_all
  have ranges:
    "effective_ranges (topng host ''C:/deck.pptx'' ''C:/out'' NoRange None) = [(1, 10)]"
    "effective_ranges (topng host ''C:/deck.pptx'' ''C:/out'' (RangeList [2, 4]) None) = [(2, 4)]"
    by (simp_all add: topng_effective_ranges [OF opens_host] slide_range_def deck_def)
  have "close_result deck = None"
    by (simp add: deck_def)
  then have returned:
    "outcome (topng host ''C:/deck.pptx'' ''C:/out'' (RangeList [2, 4]) None) = Returned"
    by (simp add: topng_opens [OF opens_host])
  from none list ranges returned show ?thesis
    by simp
qed

subsection \<open>Closing the presentation\<close>

text \<open>
  Claim C2: once the presentation is opened, \<^verbatim>\<open>Close()\<close> is called on every exit path,
  also when an export raises in the middle of the loop: the run has exactly one
  \<^verbatim>\<open>Close\<close> call, and it is the last thing the run does.
\<close>

theorem topng_closes_opened_presentation:
  assumes "opens w pptx output_dir p"
  shows "close_calls (topng w pptx output_dir r scale) = 1
         \<and> last (events (topng w pptx output_dir r scale)) = Close"
  using assms
  by (simp add: topng_opens close_calls_def ensure_output_dir_lines convert_close_calls
      split: option.splits del: concat_eq_Nil_conv)

text \<open>
  The witness: exporting slide 2 of the broken deck raises after slide 1 was saved; the
  error is reported and the presentation is closed.
\<close>

theorem topng_closes_opened_presentation_witness:
  "opens broken_host ''C:/deck.pptx'' ''C:/out'' broken_deck
   \<and> exported (topng broken_host ''C:/deck.pptx'' ''C:/out'' RangeCallable (Some 2)) =
       [(1, ''C:/out/Slide_1.png''), (2, ''C:/out/Slide_2.png'')]
   \<and> reported (topng broken_host ''C:/deck.pptx'' ''C:/out'' RangeCallable (Some 2)) = [ComError]
   \<and> close_calls (topng broken_host ''C:/deck.pptx'' ''C:/out'' RangeCallable (Some 2)) = 1
   \<and> last (events (topng broken_host ''C:/deck.pptx'' ''C:/out'' RangeCallable (Some 2))) = Close"
proof -
  have fits: "\<not> resolution_raises broken_host broken_deck (Some 2)"
    by (rule small_scale_never_raises) simp
  have ex: "exported (topng broken_host ''C:/deck.pptx'' ''C:/out'' RangeCallable (Some 2)) =
       [(1, ''C:/out/Slide_1.png''), (2, ''C:/out/Slide_2.png'')]"
    by (simp add: topng_opens [OF opens_broken_host] exported_def ensure_output_dir_lines
        broken_convert [OF fits] del: concat_eq_Nil_conv)
      (simp add: broken_host_def host_def)
  have rep: "reported (topng broken_host ''C:/deck.pptx'' ''C:/out'' RangeCallable (Some 2)) =
       [ComError]"
    by (simp add: topng_opens [OF opens_broken_host] reported_def ensure_output_dir_lines
        convert_error_lines broken_convert [OF fits] del: concat_eq_Nil_conv)
  show ?thesis
    using opens_broken_host ex rep
      topng_closes_opened_presentation [OF opens_broken_host, of RangeCallable "Some 2"]
    by simp
qed

subsection \<open>A missing input file\<close>

text \<open>
  Claim C4: when the document path does not exist, the call prints the not-found line
  and does nothing else: no directory is created, PowerPoint is not called, and the call
  returns.
\<close>

theorem topng_missing_file:
  assumes "\<not> path_exists w (abspath w pptx)"
  shows "topng w pptx output_dir r scale =
           \<lparr>outcome = Returned, events = [Print (ErrNotFound (abspath w pptx))]\<rparr>"
  using assms by (simp add: topng_def)

theorem topng_missing_file_witness:
  "\<not> path_exists host (abspath host ''C:/missing.pptx'')
   \<and> topng host ''C:/missing.pptx'' ''C:/out'' NoRange None =
       \<lparr>outcome = Returned, events = [Print (ErrNotFound ''C:/missing.pptx'')]\<rparr>"
proof -
  have h: "\<not> path_exists host (abspath host ''C:/missing.pptx'')"
    by (simp add: host_def)
  show ?thesis
    using h topng_missing_file [OF h, of "''C:/out''" NoRange None]
    by (simp add: host_def)
qed

subsection \<open>Failures\<close>

text \<open>
  Claim C3, as stated (every failure is caught and printed, the call always returns), is
  false: \<^verbatim>\<open>os.makedirs\<close> runs outside every \<^verbatim>\<open>try\<close>. On a host where the output
  directory is missing and cannot be created, the call raises \<^verbatim>\<open>OSError\<close>.
\<close>

theorem topng_makedirs_failure_propagates:
  "outcome (topng readonly_host ''C:/deck.pptx'' ''C:/out'' NoRange None) = Raised OSError"
  by (simp add: topng_def readonly_host_def host_def ensure_output_dir_def)

text \<open>
  Claim C3, amended: unless creating the output directory fails or \<^verbatim>\<open>Close()\<close>
  raises, the call returns normally, and a failure of \<^verbatim>\<open>Dispatch\<close>, of \<^verbatim>\<open>Open\<close> or
  of any step between \<^verbatim>\<open>Open\<close> and the end of the export loop is the one exception the
  run reports on the console.
\<close>

theorem topng_reports_and_returns:
  assumes "snd (ensure_output_dir w (abspath w output_dir)) = None"
    and "\<And>p. open_result w (abspath w pptx) = Inr p \<Longrightarrow> close_result p = None"
  shows "outcome (topng w pptx output_dir r scale) = Returned
         \<and> (\<forall>e. path_exists w (abspath w pptx) \<and> dispatch_result w = Some e \<longrightarrow>
               reported (topng w pptx output_dir r scale) = [e])
         \<and> (\<forall>e. path_exists w (abspath w pptx) \<and> dispatch_result w = None
                 \<and> open_result w (abspath w pptx) = Inl e \<longrightarrow>
               reported (topng w pptx output_dir r scale) = [e])
         \<and> (\<forall>p e. opens w pptx output_dir p
                 \<and> snd (convert w p pptx (abspath w output_dir) r scale) = Some e \<longrightarrow>
               reported (topng w pptx output_dir r scale) = [e])"
proof (intro conjI allI impI)
  show "outcome (topng w pptx output_dir r scale) = Returned"
    using assms
    by (auto simp: topng_def Let_def split: prod.splits option.splits sum.splits)
next
  fix e
  assume "path_exists w (abspath w pptx) \<and> dispatch_result w = Some e"
  with assms(1) show "reported (topng w pptx output_dir r scale) = [e]"
    using ensure_output_dir_lines(5) [of w "abspath w output_dir"]
    by (auto simp: topng_def reported_def Let_def split: prod.splits option.splits
        simp del: concat_eq_Nil_conv)
next
  fix e
  assume "path_exists w (abspath w pptx) \<and> dispatch_result w = None
            \<and> open_result w (abspath w pptx) = Inl e"
  with assms(1) show "reported (topng w pptx output_dir r scale) = [e]"
    using ensure_output_dir_lines(5) [of w "abspath w output_dir"]
    by (auto simp: topng_def reported_def Let_def split: prod.splits option.splits
        simp del: concat_eq_Nil_conv)
next
  fix p e
  assume "opens w pptx output_dir p
            \<and> snd (convert w p pptx (abspath w output_dir) r scale) = Some e"
  then have o: "opens w pptx output_dir p"
    and c: "snd (convert w p pptx (abspath w output_dir) r scale) = Some e"
    by simp_all
  show "reported (topng w pptx output_dir r scale) = [e]"
    by (simp add: topng_opens [OF o] c reported_def ensure_output_dir_lines
        convert_error_lines del: concat_eq_Nil_conv)
qed

text \<open>The witness: the failing export of the broken deck is reported, and the call returns.\<close>

theorem topng_reports_and_returns_witness:
  "outcome (topng broken_host ''C:/deck.pptx'' ''C:/out'' RangeCallable None) = Returned
   \<and> reported (topng broken_host ''C:/deck.pptx'' ''C:/out'' RangeCallable None) = [ComError]"
proof -
  have mk: "snd (ensure_output_dir broken_host (abspath broken_host ''C:/out'')) = None"
    by (simp add: ensure_output_dir_def broken_host_def host_def)
  have cl: "\<And>p. open_result broken_host (abspath broken_host ''C:/deck.pptx'') = Inr p
              \<Longrightarrow> close_result p = None"
    by (auto simp: broken_host_def host_def broken_deck_def deck_def)
  have raised: "snd (convert broken_host broken_deck ''C:/deck.pptx''
                      (abspath broken_host ''C:/out'') RangeCallable None) = Some ComError"
    by (rule broken_convert) simp
  show ?thesis
    using topng_reports_and_returns [OF mk cl, where r = RangeCallable and scale = None]
      opens_broken_host raised
    by blast
qed

subsection \<open>The slide range\<close>

text \<open>
  The range is computed at lines 52-58 and printed at line 101. Between the two, lines
  95-96 raise \<^verbatim>\<open>OverflowError\<close> when \<^verbatim>\<open>scale\<close> is too large for a float or a product
  is infinite (\<open>resolution_raises\<close>; never for a scale up to \<open>2\<^sup>5\<^sup>3\<close>, lemma
  \<open>small_scale_never_raises\<close>): then the range is computed but not printed. The
  properties below give both: the pair that \<open>slide_range\<close> computes for every call, and
  the line the run prints.
\<close>

text \<open>
  Claim C5, as stated (the effective range always satisfies
  \<open>1 \<le> start \<le> end \<le> total_slides\<close>), is false: each bound is clamped on its own and
  the two are never compared. On the ten-slide deck the range \<open>[5, 3]\<close> gives start 5 and
  end 3.
\<close>

theorem topng_inverted_range_kept:
  "effective_ranges (topng host ''C:/deck.pptx'' ''C:/out'' (RangeList [5, 3]) None) = [(5, 3)]
   \<and> \<not> range_invariant 10 (5, 3)"
  by (simp add: topng_effective_ranges [OF opens_host] slide_range_def range_invariant_def
      deck_def)

text \<open>
  Claim C5, amended: for every range argument and every document the effective range has
  \<open>1 \<le> start\<close> and \<open>end \<le> total_slides\<close>; for a list \<open>[a, b]\<close> it is
  \<open>start = max 1 a\<close>, \<open>end = min total_slides b\<close>, and the invariant
  \<open>1 \<le> start \<le> end \<le> total_slides\<close> holds exactly when \<open>1 \<le> total_slides\<close>,
  \<open>1 \<le> b\<close>, \<open>a \<le> total_slides\<close> and \<open>a \<le> b\<close>. The run prints this range, and
  only it, unless lines 95-96 raise first; then it prints no range.
\<close>

theorem topng_range_bounds_clamped:
  assumes "opens w pptx output_dir p"
  shows "effective_ranges (topng w pptx output_dir r scale) =
           (if resolution_raises w p scale then [] else [slide_range (slides_count p) r])
         \<and> 1 \<le> fst (slide_range (slides_count p) r)
         \<and> snd (slide_range (slides_count p) r) \<le> int (slides_count p)
         \<and> slide_range (slides_count p) (RangeList [a, b]) =
             (max 1 a, min (int (slides_count p)) b)
         \<and> range_invariant (slides_count p) (slide_range (slides_count p) (RangeList [a, b])) =
             (1 \<le> slides_count p \<and> 1 \<le> b \<and> a \<le> int (slides_count p) \<and> a \<le> b)"
proof -
  have "effective_ranges (topng w pptx output_dir r scale) =
      (if resolution_raises w p scale then [] else [slide_range (slides_count p) r])"
    by (rule topng_effective_ranges [OF assms])
  moreover have "1 \<le> fst (slide_range (slides_count p) r)"
    by (simp add: slide_range_def)
  moreover have "snd (slide_range (slides_count p) r) \<le> int (slides_count p)"
    by (simp add: slide_range_def)
  moreover have "slide_range (slides_count p) (RangeList [a, b]) =
      (max 1 a, min (int (slides_count p)) b)"
    by (simp add: slide_range_def)
  moreover have "range_invariant (slides_count p)
      (slide_range (slides_count p) (RangeList [a, b])) =
      (1 \<le> slides_count p \<and> 1 \<le> b \<and> a \<le> int (slides_count p) \<and> a \<le> b)"
    by (auto simp: slide_range_def range_invariant_def)
  ultimately show ?thesis
    by blast
qed

text \<open>
  The witness: the range \<open>[2, 4]\<close> on the ten-slide deck, at scale 3 and at the scale
  \<open>2\<^sup>1\<^sup>0\<^sup>2\<^sup>4\<close>, which is too large for a float.
\<close>

theorem topng_range_bounds_clamped_witness:
  "opens host ''C:/deck.pptx'' ''C:/out'' deck
   \<and> effective_ranges (topng host ''C:/deck.pptx'' ''C:/out'' (RangeList [2, 4]) (Some 3)) =
       [(2, 4)]
   \<and> range_invariant 10 (2, 4)
   \<and> slide_range 10 (RangeList [2, 4]) = (2, 4)
   \<and> effective_ranges
        (topng host ''C:/deck.pptx'' ''C:/out'' (RangeList [2, 4]) (Some huge_scale)) = []"
proof -
  have n: "slides_count deck = 10"
    by (simp add: deck_def)
  have fits: "\<not> resolution_raises host deck (Some 3)"
    by (rule small_scale_never_raises) simp
  have raises: "resolution_raises host deck (Some huge_scale)"
    by (simp add: resolution_raises_def target_resolution_def manual_resolution_def
        to_float_def float_limit_def huge_scale_def)
  show ?thesis
    using opens_host
      topng_range_bounds_clamped [OF opens_host, where r = "RangeList [2, 4]" and a = 2
        and b = 4 and scale = "Some 3"]
      topng_range_bounds_clamped [OF opens_host, where r = "RangeList [2, 4]" and a = 2
        and b = 4 and scale = "Some huge_scale"]
    by (simp add: n fits raises range_invariant_def)
qed

text \<open>
  Claim C6: on a ten-slide document the range \<open>[0, 999]\<close> is clamped to start 1 and
  end 10: this is the pair computed for every call, and the range the run prints (unless
  lines 95-96 raise first, when no range is printed).
\<close>

theorem topng_clamps_0_999:
  assumes "opens w pptx output_dir p" and "slides_count p = 10"
  shows "slide_range (slides_count p) (RangeList [0, 999]) = (1, 10)
         \<and> effective_ranges (topng w pptx output_dir (RangeList [0, 999]) scale) =
             (if resolution_raises w p scale then [] else [(1, 10)])"
  using assms by (simp add: topng_effective_ranges slide_range_def)

theorem topng_clamps_0_999_witness:
  "opens host ''C:/deck.pptx'' ''C:/out'' deck \<and> slides_count deck = 10
   \<and> slide_range (slides_count deck) (RangeList [0, 999]) = (1, 10)
   \<and> effective_ranges (topng host ''C:/deck.pptx'' ''C:/out'' (RangeList [0, 999]) None) =
       [(1, 10)]
   \<and> effective_ranges (topng host ''C:/deck.pptx'' ''C:/out'' (RangeList [0, 999]) (Some 2)) =
       [(1, 10)]"
proof -
  have n: "slides_count deck = 10"
    by (simp add: deck_def)
  have fits: "\<not> resolution_raises host deck (Some 2)"
    by (rule small_scale_never_raises) simp
  show ?thesis
    using opens_host n topng_clamps_0_999 [OF opens_host n, of None]
      topng_clamps_0_999 [OF opens_host n, of "Some 2"]
    by (simp add: fits)
qed

text \<open>
  Claim C10: a range argument that is not a list of length two (a tuple, a list of
  another length) is ignored without a message: the effective range is 1 to
  \<open>total_slides\<close>, computed for every call and printed by the run (unless lines 95-96
  raise first). For a tuple or a list the run ends as the run of a call without a range
  does, with the same events apart from the error report and with reports of the same
  exception classes (line 105 raises \<^verbatim>\<open>TypeError\<close> in both; its text names the type
  of the argument).
\<close>

theorem topng_ignores_other_ranges:
  assumes "opens w pptx output_dir p"
    and "\<not> (isinstance_list r \<and> length (items r) = 2)"
  shows "slide_range (slides_count p) r = (1, int (slides_count p))
         \<and> effective_ranges (topng w pptx output_dir r scale) =
             (if resolution_raises w p scale then [] else [(1, int (slides_count p))])
         \<and> (r \<noteq> RangeCallable \<longrightarrow>
              outcome (topng w pptx output_dir r scale) =
                outcome (topng w pptx output_dir NoRange scale)
              \<and> plain_events (topng w pptx output_dir r scale) =
                  plain_events (topng w pptx output_dir NoRange scale)
              \<and> reported (topng w pptx output_dir r scale) =
                  reported (topng w pptx output_dir NoRange scale))"
proof -
  from assms(2) have full: "slide_range total r = slide_range total NoRange" for total
    by (auto simp: slide_range_def)
  have none: "slide_range total NoRange = (1, int total)" for total
    by (simp add: slide_range_def)
  have same: "topng w pptx output_dir r scale = topng w pptx output_dir NoRange scale"
    if "r \<noteq> RangeCallable"
  proof -
    from that have call: "call_range r x y = call_range NoRange x y" for x y
      by (cases r) simp_all
    have "convert w q pptx out r scale = convert w q pptx out NoRange scale" for q out
      unfolding convert_def full call ..
    then show ?thesis
      by (simp only: topng_def)
  qed
  have "effective_ranges (topng w pptx output_dir r scale) =
      (if resolution_raises w p scale then [] else [(1, int (slides_count p))])"
    by (simp add: topng_effective_ranges [OF assms(1)] full none)
  with same show ?thesis
    by (simp add: full none)
qed

theorem topng_ignores_other_ranges_witness:
  "opens host ''C:/deck.pptx'' ''C:/out'' deck
   \<and> slide_range 10 (RangeTuple [2, 4]) = (1, 10)
   \<and> effective_ranges (topng host ''C:/deck.pptx'' ''C:/out'' (RangeTuple [2, 4]) None) =
       [(1, 10)]
   \<and> effective_ranges (topng host ''C:/deck.pptx'' ''C:/out'' (RangeList [2, 4, 6]) None) =
       [(1, 10)]
   \<and> plain_events (topng host ''C:/deck.pptx'' ''C:/out'' (RangeTuple [2, 4]) None) =
       plain_events (topng host ''C:/deck.pptx'' ''C:/out'' NoRange None)"
proof -
  have t: "\<not> (isinstance_list (RangeTuple [2, 4]) \<and> length (items (RangeTuple [2, 4])) = 2)"
    by simp
  have l: "\<not> (isinstance_list (RangeList [2, 4, 6]) \<and> length (items (RangeList [2, 4, 6])) = 2)"
    by simp
  have n: "slides_count deck = 10"
    by (simp add: deck_def)
  note tuple = topng_ignores_other_ranges [OF opens_host t, of None, unfolded n]
  note list = topng_ignores_other_ranges [OF opens_host l, of None, unfolded n]
  from tuple have
    "plain_events (topng host ''C:/deck.pptx'' ''C:/out'' (RangeTuple [2, 4]) None) =
       plain_events (topng host ''C:/deck.pptx'' ''C:/out'' NoRange None)"
    by simp
  moreover from tuple have "slide_range 10 (RangeTuple [2, 4]) = (1, 10)"
    by simp
  moreover from tuple have
    "effective_ranges (topng host ''C:/deck.pptx'' ''C:/out'' (RangeTuple [2, 4]) None) =
       [(1, 10)]"
    by simp
  moreover from list have
    "effective_ranges (topng host ''C:/deck.pptx'' ''C:/out'' (RangeList [2, 4, 6]) None) =
       [(1, 10)]"
    by simp
  ultimately show ?thesis
    using opens_host by blast
qed

subsection \<open>The target size\<close>

text \<open>
  Claim C7: with \<^verbatim>\<open>scale = 2\<close> and a slide of \<open>W\<close> by \<open>H\<close> points the target size is
  \<^verbatim>\<open>(int(W * 2), int(H * 2))\<close>, the float products truncated; where doubling is exact
  (as it is for binary floats), that is \<open>2W\<close> and \<open>2H\<close> truncated.
\<close>

theorem topng_scale_two_size:
  assumes "opens w pptx output_dir p"
  shows "target_sizes (topng w pptx output_dir r (Some 2)) =
           [(py_int (fmul w (slide_width p) 2), py_int (fmul w (slide_height p) 2))]
         \<and> (rnd w (slide_width p * 2) = slide_width p * 2
              \<and> rnd w (slide_height p * 2) = slide_height p * 2 \<longrightarrow>
            target_sizes (topng w pptx output_dir r (Some 2)) =
              [(py_int (2 * slide_width p), py_int (2 * slide_height p))])"
proof -
  have "to_float w 2 = Inr 2"
    using to_float_exact [of 2 w] by simp
  then have "target_resolution w (slide_width p) (slide_height p) (Some 2) =
      Inr (ModeManual 2, py_int (fmul w (slide_width p) 2), py_int (fmul w (slide_height p) 2))"
    by (simp add: target_resolution_def manual_resolution_def doubled_size_finite)
  then show ?thesis
    by (simp add: topng_target_sizes [OF assms] fmul_def mult.commute)
qed

text \<open>The witness: 1023.75 x 511.875 points at scale 2 give 2047 x 1023 pixels.\<close>

theorem topng_scale_two_size_witness:
  "opens host ''C:/deck.pptx'' ''C:/out'' deck
   \<and> target_sizes (topng host ''C:/deck.pptx'' ''C:/out'' NoRange (Some 2)) = [(2047, 1023)]"
proof -
  have w: "py_int (fmul host (slide_width deck) 2) = 2047"
    by (simp add: fmul_def host_def deck_size py_int_def) linarith
  have h: "py_int (fmul host (slide_height deck) 2) = 1023"
    by (simp add: fmul_def host_def deck_size py_int_def) linarith
  show ?thesis
    using opens_host conjunct1 [OF topng_scale_two_size [OF opens_host, of NoRange]]
    by (simp add: w h)
qed

text \<open>
  Claim C8, as stated (without a scale, on a landscape slide and with long edge \<open>L\<close>, the
  target height is the floor of \<open>L\<close> divided by the aspect ratio width / height), is
  false: lines 78 and 82 divide in double arithmetic and round twice. A slide of 420 x 375
  points on a 1680 x 1050 screen has the ratio 1.12 and \<open>1680 / 1.12 = 1500\<close>, but the
  double nearest to 1.12 lies above it, the second quotient is rounded to
  \<open>1500 - 2\<^sup>-\<^sup>4\<^sup>2\<close>, and the target height is 1499.
\<close>

theorem topng_float_height_below_floor:
  "screen_metrics wide_host = Inr (1680, 1050)
   \<and> 1 \<le> slide_width wide_deck / slide_height wide_deck
   \<and> target_sizes (topng wide_host ''C:/deck.pptx'' ''C:/out'' NoRange None) = [(1680, 1499)]
   \<and> \<lfloor>rat_of_nat (max 1680 1050) / (slide_width wide_deck / slide_height wide_deck)\<rfloor> = 1500"
proof -
  define ratio :: rat where "ratio = 1261007895663739 / 1125899906842624"
  have r: "rnd wide_host = round_double"
    and m: "screen_metrics wide_host = Inr (1680, 1050)"
    by (simp_all add: wide_host_def host_def)
  have "round_double (420 / 375) = 1261007895663739 / 1125899906842624"
    by code_simp
  then have slide_ratio: "fdiv wide_host (slide_width wide_deck) (slide_height wide_deck) = ratio"
    by (simp only: fdiv_def r wide_deck_size ratio_def)
  have landscape: "1 \<le> ratio"
    by (simp add: ratio_def)
  have "round_double (1680 / (1261007895663739 / 1125899906842624)) =
      6597069766655999 / 4398046511104"
    by code_simp
  then have quotient: "round_double (1680 / ratio) = 6597069766655999 / 4398046511104"
    by (simp only: ratio_def)
  have "\<bar>1680 / ratio\<bar> < 2 ^ 1023"
    by (simp add: ratio_def)
  then have finite: "\<not> float_limit \<le> \<bar>1680 / ratio\<bar>"
    by (rule below_float_limit)
  have "\<lfloor>6597069766655999 / 4398046511104 :: rat\<rfloor> = 1499"
    by linarith
  then have "py_int (round_double (1680 / ratio)) = 1499"
    by (simp add: quotient py_int_def)
  moreover have "to_float wide_host (int 1680) = Inr 1680"
    using to_float_exact [of 1680 wide_host] by simp
  moreover have "ratio \<noteq> 0"
    using landscape by simp
  ultimately have height: "int_of_quotient wide_host 1680 ratio = Inr 1499"
    using finite by (simp add: int_of_quotient_def int_of_float_def r)
  have "slide_height wide_deck \<noteq> 0"
    by (simp add: wide_deck_size)
  then have "auto_resolution wide_host (slide_width wide_deck) (slide_height wide_deck) =
      (ModeAuto 1680, 1680, 1499)"
    using landscape by (simp add: auto_resolution_def m slide_ratio height)
  then have "target_resolution wide_host (slide_width wide_deck) (slide_height wide_deck) None =
      Inr (ModeAuto 1680, 1680, 1499)"
    by (simp add: target_resolution_def)
  then have "target_sizes (topng wide_host ''C:/deck.pptx'' ''C:/out'' NoRange None) =
      [(1680, 1499)]"
    by (simp add: topng_target_sizes [OF opens_wide_host])
  moreover note m
  moreover have "\<lfloor>rat_of_nat (max 1680 1050) /
      (slide_width wide_deck / slide_height wide_deck)\<rfloor> = 1500"
    by (simp add: wide_deck_size)
  moreover have "1 \<le> slide_width wide_deck / slide_height wide_deck"
    by (simp add: wide_deck_size)
  ultimately show ?thesis
    by blast
qed

text \<open>
  Claim C8, amended: without a scale, on a host with the rounding of doubles, when the
  screen query answers with a long edge \<open>L\<close> below \<open>2\<^sup>3\<^sup>1\<close> and the slide is landscape
  (the double quotient width / height is at least 1), the target width is \<open>L\<close> and the
  target height is the floor of the double quotient of \<open>L\<close> by that double ratio; it
  differs from the floor of the exact \<open>L / (width / height)\<close> by at most 1.
\<close>

theorem topng_auto_landscape_size:
  assumes "opens w pptx output_dir p"
    and "rnd w = round_double"
    and "screen_metrics w = Inr (screen_w, screen_h)"
    and "max screen_w screen_h < 2 ^ 31"
    and "slide_height p \<noteq> 0"
    and "1 \<le> round_double (slide_width p / slide_height p)"
  shows "target_sizes (topng w pptx output_dir r None) =
           [(int (max screen_w screen_h),
             \<lfloor>round_double (of_nat (max screen_w screen_h)
                / round_double (slide_width p / slide_height p))\<rfloor>)]
         \<and> \<bar>\<lfloor>round_double (of_nat (max screen_w screen_h)
                / round_double (slide_width p / slide_height p))\<rfloor>
            - \<lfloor>of_nat (max screen_w screen_h) / (slide_width p / slide_height p)\<rfloor>\<bar> \<le> 1"
proof -
  define L where "L = max screen_w screen_h"
  define ratio where "ratio = round_double (slide_width p / slide_height p)"
  have ratio: "1 \<le> ratio"
    using assms(6) by (simp add: ratio_def)
  have "int L < 2 ^ 31"
    using assms(4) by (simp add: L_def)
  then have "\<bar>int L\<bar> \<le> 2 ^ 53"
    by simp
  then have long: "to_float w (int L) = Inr (of_nat L)"
    using to_float_exact [of "int L" w] by simp
  have q0: "0 \<le> rat_of_nat L / ratio"
    using ratio by simp
  have "rat_of_nat L / ratio \<le> of_nat L / 1"
    using ratio by (intro divide_left_mono) simp_all
  moreover have "rat_of_nat L < 2 ^ 31"
  proof -
    have "rat_of_nat L < rat_of_nat (2 ^ 31)"
      using assms(4) by (simp only: of_nat_less_iff L_def)
    then show ?thesis by simp
  qed
  moreover have "(2::rat) ^ 31 < 2 ^ 1023"
    by simp
  ultimately have "\<bar>rat_of_nat L / ratio\<bar> < 2 ^ 1023"
    using q0 by simp
  then have finite: "\<not> float_limit \<le> \<bar>rat_of_nat L / ratio\<bar>"
    by (rule below_float_limit)
  have "0 \<le> round_double (rat_of_nat L / ratio)"
    using q0 by (rule round_double_nonneg)
  then have "py_int (round_double (rat_of_nat L / ratio)) =
      \<lfloor>round_double (rat_of_nat L / ratio)\<rfloor>"
    by (rule py_int_nonneg)
  then have height: "int_of_quotient w L ratio = Inr \<lfloor>round_double (rat_of_nat L / ratio)\<rfloor>"
    using ratio finite by (simp add: int_of_quotient_def long int_of_float_def assms(2))
  have "auto_resolution w (slide_width p) (slide_height p) =
      (ModeAuto L, int L, \<lfloor>round_double (rat_of_nat L / ratio)\<rfloor>)"
    using assms(3,5) ratio
    by (simp add: auto_resolution_def fdiv_def assms(2) L_def [symmetric]
        ratio_def [symmetric] height)
  then have "target_sizes (topng w pptx output_dir r None) =
      [(int L, \<lfloor>round_double (rat_of_nat L / ratio)\<rfloor>)]"
    by (simp add: topng_target_sizes [OF assms(1)] target_resolution_def)
  moreover have "\<bar>\<lfloor>round_double (rat_of_nat L / ratio)\<rfloor>
      - \<lfloor>rat_of_nat L / (slide_width p / slide_height p)\<rfloor>\<bar> \<le> 1"
    unfolding ratio_def
    by (rule landscape_height_error) (use assms(4,6) in \<open>simp_all add: L_def\<close>)
  ultimately show ?thesis
    by (simp add: L_def ratio_def)
qed

text \<open>
  The witness: a 2 : 1 slide on a 1920 x 1080 screen gives 1920 x 960 pixels, the exact
  value.
\<close>

theorem topng_auto_landscape_size_witness:
  "opens ieee_host ''C:/deck.pptx'' ''C:/out'' deck
   \<and> rnd ieee_host = round_double
   \<and> screen_metrics ieee_host = Inr (1920, 1080)
   \<and> round_double (slide_width deck / slide_height deck) = 2
   \<and> target_sizes (topng ieee_host ''C:/deck.pptx'' ''C:/out'' NoRange None) = [(1920, 960)]"
proof -
  have r: "rnd ieee_host = round_double"
    by (simp add: ieee_host_def)
  have m: "screen_metrics ieee_host = Inr (1920, 1080)"
    by (simp add: ieee_host_def host_def)
  have s: "max (1920::nat) 1080 < 2 ^ 31"
    by simp
  have h: "slide_height deck \<noteq> 0"
    by (simp add: deck_size)
  have two: "round_double 2 = 2"
    by code_simp
  have ratio: "round_double (slide_width deck / slide_height deck) = 2"
    by (simp add: deck_size two)
  have landscape: "1 \<le> round_double (slide_width deck / slide_height deck)"
    by (simp add: ratio)
  have q: "round_double 960 = 960"
    by code_simp
  show ?thesis
    using opens_ieee_host r m ratio
      topng_auto_landscape_size [OF opens_ieee_host r m s h landscape, of NoRange]
    by (simp add: q)
qed

text \<open>
  Claim C9: with \<^verbatim>\<open>scale = 0\<close>, the one false value of \<^verbatim>\<open>scale\<close> besides
  \<^verbatim>\<open>None\<close>, the manual branch is not taken: the run is the run of the call without a
  scale, and no \<^verbatim>\<open>Mode: Manual Scale\<close> line is printed.
\<close>

theorem topng_scale_zero_is_auto:
  "topng w pptx output_dir r (Some 0) = topng w pptx output_dir r None
   \<and> manual_modes (topng w pptx output_dir r (Some 0)) = []"
proof -
  have "target_resolution w sw sh (Some 0) = target_resolution w sw sh None" for sw sh
    by (simp add: target_resolution_def)
  then have "convert w p pptx out r (Some 0) = convert w p pptx out r None" for p out
    by (simp only: convert_def)
  then have same: "topng w pptx output_dir r (Some 0) = topng w pptx output_dir r None"
    by (simp only: topng_def)
  have "manual_modes (topng w pptx output_dir r None) = []"
    by (simp add: topng_def manual_modes_def Let_def case_prod_unfold ensure_output_dir_lines
        convert_manual_lines split: option.splits sum.splits del: concat_eq_Nil_conv)
  with same show ?thesis
    by simp
qed

subsection \<open>The loop when it runs\<close>

text \<open>
  The loop body itself is sound: over indices that are slides of the document, and when no
  export fails, it exports each index once, in order, as \<^verbatim>\<open>Slide_<index>.png\<close> in the
  output directory, and counts them. A call reaches it only with a callable
  \<^verbatim>\<open>range\<close> argument, for which the range is always the whole document.
\<close>

lemma export_loop_all:
  assumes "\<forall>i\<in>set is. 1 \<le> i \<and> i \<le> int (slides_count p) \<and> export_result p i = None"
  shows "export_loop w p out tw th is c =
           (concat (map (\<lambda>i. [Export i (join w out (''Slide_'' @ show_int i @ ''.png'')) tw th,
                               Print (Saved (''Slide_'' @ show_int i @ ''.png''))]) is),
            Inr (c + length is))"
  using assms by (induction "is" arbitrary: c) (simp_all add: Let_def)

lemma topng_callable_exports_every_slide:
  assumes "opens w pptx output_dir p" and "\<And>i. export_result p i = None"
    and "\<not> resolution_raises w p scale"
  shows "exported (topng w pptx output_dir RangeCallable scale) =
           map (\<lambda>i. (i, join w (abspath w output_dir) (''Slide_'' @ show_int i @ ''.png'')))
             [1..int (slides_count p)]"
proof -
  let ?out = "abspath w output_dir"
  obtain mode tw th where
    size: "target_resolution w (slide_width p) (slide_height p) scale = Inr (mode, tw, th)"
    using assms(3) by (auto simp: resolution_raises_def split: sum.splits)
  have loop: "export_loop w p ?out tw th [1..int (slides_count p)] 0 =
      (concat (map (\<lambda>i. [Export i (join w ?out (''Slide_'' @ show_int i @ ''.png'')) tw th,
                          Print (Saved (''Slide_'' @ show_int i @ ''.png''))])
                [1..int (slides_count p)]),
       Inr (0 + length [1..int (slides_count p)]))"
    by (rule export_loop_all) (simp add: assms(2))
  have pick: "concat (map export_call (concat (map (\<lambda>i. [Export i (f i) tw th, Print (g i)]) is))) =
      map (\<lambda>i. (i, f i)) is" for f g and "is" :: "int list"
    by (induction "is") simp_all
  have "concat (map export_call (fst (convert w p pptx ?out RangeCallable scale))) =
      map (\<lambda>i. (i, join w ?out (''Slide_'' @ show_int i @ ''.png''))) [1..int (slides_count p)]"
    by (simp add: convert_def slide_range_def size Let_def loop pick)
  then show ?thesis
    by (simp add: topng_opens [OF assms(1)] exported_def ensure_output_dir_lines
        split: option.splits del: concat_eq_Nil_conv)
qed

subsection \<open>A scale too large for a float\<close>

text \<open>
  When lines 95-96 raise, the exception is an \<^verbatim>\<open>OverflowError\<close>; the run prints no
  mode, size or range line and exports nothing, reports the error, closes the
  presentation and returns (unless \<^verbatim>\<open>Close()\<close> raises).
\<close>

lemma resolution_raises_overflow:
  assumes "resolution_raises w p scale"
  shows "target_resolution w (slide_width p) (slide_height p) scale = Inl OverflowError"
  using assms
  by (auto simp: resolution_raises_def target_resolution_def manual_resolution_def
      to_float_def split: sum.splits option.splits if_splits)

lemma topng_scale_overflow:
  assumes "opens w pptx output_dir p" and "resolution_raises w p scale"
  shows "events (topng w pptx output_dir r scale) =
           fst (ensure_output_dir w (abspath w output_dir))
           @ [Dispatch, Open (abspath w pptx), Print (ErrConversion OverflowError), Close]"
  by (simp add: topng_opens [OF assms(1)] convert_def
      resolution_raises_overflow [OF assms(2)] case_prod_unfold)

lemma topng_huge_scale:
  "events (topng host ''C:/deck.pptx'' ''C:/out'' NoRange (Some huge_scale)) =
     [MakeDirs ''C:/out'', Print (CreatedDir ''C:/out''), Dispatch, Open ''C:/deck.pptx'',
      Print (ErrConversion OverflowError), Close]"
proof -
  have "resolution_raises host deck (Some huge_scale)"
    by (simp add: resolution_raises_def target_resolution_def manual_resolution_def
        to_float_def float_limit_def huge_scale_def)
  then show ?thesis
    by (simp add: topng_scale_overflow [OF opens_host]) (simp add: host_def ensure_output_dir_def)
qed

end
